theory Spec2Isabelle
  imports Main
begin

section \<open>Strings and numbers of the host language\<close>

text \<open>
  The action is a single asynchronous function \<open>run\<close> (src/index.ts). It reads three
  inputs, issues one StartCrawler request, optionally polls GetCrawler until the state
  \<open>READY\<close> or a deadline, fetches the crawler metrics and writes outputs.

  Strings are \<open>string\<close>. The white space that \<open>String.prototype.trim\<close> and \<open>parseInt\<close>
  skip is modelled by its ASCII part (space, tab, line feed, vertical tab, form feed,
  carriage return): \<open>trim\<close> and \<open>parseInt\<close> below are those of the code on ASCII
  strings. A JavaScript number is modelled as \<open>int option\<close>: \<open>None\<close> is \<open>NaN\<close>,
  \<open>Some i\<close> the integer \<open>i\<close>. This is exact for the integers a double holds exactly
  (magnitude below \<open>2^53\<close>); rounding beyond that range is outside the model. The
  conditions \<open>ascii_inputs\<close>, \<open>safe_integer\<close> and \<open>time_value\<close> below say where model
  and code agree.
\<close>

definition is_space :: "char \<Rightarrow> bool" where
  "is_space c = (c \<in> set [CHR '' '', CHR 0x09, CHR 0x0A, CHR 0x0B, CHR 0x0C, CHR 0x0D])"

definition trim :: "string \<Rightarrow> string" where
  "trim s = rev (dropWhile is_space (rev (dropWhile is_space s)))"

definition digit_val :: "char \<Rightarrow> nat option" where
  "digit_val c =
     map_of [(CHR ''0'', 0), (CHR ''1'', 1), (CHR ''2'', 2), (CHR ''3'', 3), (CHR ''4'', 4),
             (CHR ''5'', 5), (CHR ''6'', 6), (CHR ''7'', 7), (CHR ''8'', 8), (CHR ''9'', 9)] c"

definition is_digit :: "char \<Rightarrow> bool" where
  "is_digit c = (digit_val c \<noteq> None)"

definition decimal_value :: "string \<Rightarrow> nat" where
  "decimal_value ds = foldl (\<lambda>a c. 10 * a + (case digit_val c of Some d \<Rightarrow> d | None \<Rightarrow> 0)) 0 ds"

text \<open>
  \<open>parseInt(s, 10)\<close>: skip leading white space, take an optional sign, then the longest
  run of decimal digits; no digit at all gives \<open>NaN\<close>. Whatever follows the digits is
  ignored.
\<close>

definition parseInt :: "string \<Rightarrow> int option" where
  "parseInt s =
     (let S = dropWhile is_space s;
          sign = (case S of c # cs \<Rightarrow> if c = CHR ''-'' then - 1 else 1 | [] \<Rightarrow> (1::int));
          S' = (case S of c # cs \<Rightarrow> if c = CHR ''-'' \<or> c = CHR ''+'' then cs else S | [] \<Rightarrow> []);
          Z = takeWhile is_digit S'
      in if Z = [] then None else Some (sign * int (decimal_value Z)))"

text \<open>
  \<open>Number.prototype.toString\<close>, which a template literal applies too, on an integer.
\<close>

definition digit_char :: "nat \<Rightarrow> char" where
  "digit_char d = ''0123456789'' ! d"

fun show_nat :: "nat \<Rightarrow> string" where
  "show_nat n = (if n < 10 then [digit_char n] else show_nat (n div 10) @ [digit_char (n mod 10)])"

declare show_nat.simps [simp del]

definition show_int :: "int \<Rightarrow> string" where
  "show_int i = (if i < 0 then CHR ''-'' # show_nat (nat (- i)) else show_nat (nat i))"

text \<open>The comparison \<open>a > b\<close> of an integer with a number: false when \<open>b\<close> is \<open>NaN\<close>.\<close>

definition js_gt :: "int \<Rightarrow> int option \<Rightarrow> bool" where
  "js_gt a b = (case b of None \<Rightarrow> False | Some t \<Rightarrow> a > t)"

definition js_times :: "int option \<Rightarrow> int \<Rightarrow> int option" where
  "js_times a b = map_option (\<lambda>x. x * b) a"

section \<open>Thrown values, the host and the remote service\<close>

text \<open>
  A thrown value is an \<open>Error\<close> instance with its message, or any other value (its
  rendering is kept, to show that nothing is derived from it).
\<close>

datatype thrown = JsError string | NonError string

datatype event =
    Info string
  | Warning string
  | StartCrawler string
  | GetCrawler string
  | GetCrawlerMetrics "string list"
  | Sleep nat

text \<open>
  What the action does to its host: the outputs written with \<open>core.setOutput\<close> (a later
  write of a key replaces an earlier one), the message of \<open>core.setFailed\<close>, and the
  trace of log lines, remote requests and suspensions, in order.
\<close>

record host =
  outputs :: "string \<rightharpoonup> string"
  failed :: "string option"
  trace :: "event list"

definition host0 :: host where
  "host0 = \<lparr>outputs = Map.empty, failed = None, trace = []\<rparr>"

definition emit :: "event \<Rightarrow> host \<Rightarrow> host" where
  "emit e h = h\<lparr>trace := trace h @ [e]\<rparr>"

definition setOutput :: "string \<Rightarrow> string \<Rightarrow> host \<Rightarrow> host" where
  "setOutput k v h = h\<lparr>outputs := (outputs h)(k \<mapsto> v)\<rparr>"

definition setFailed :: "string \<Rightarrow> host \<Rightarrow> host" where
  "setFailed m h = h\<lparr>failed := Some m\<rparr>"

record metrics =
  TablesCreated :: "int option"
  TablesUpdated :: "int option"
  TablesDeleted :: "int option"

text \<open>
  The world the action runs in: the input variables of the process environment, the
  answer of the start request (\<open>None\<close>: it resolves), the answer of the \<open>k\<close>-th status
  request (the field \<open>Crawler?.State\<close>, possibly undefined, or a rejection), the answer
  of the metrics request (the entry \<open>CrawlerMetricsList?.[0]\<close>, possibly undefined, or a
  rejection) and the value of the \<open>k\<close>-th reading of \<open>Date.now()\<close>.
\<close>

record world =
  inputs :: "string \<rightharpoonup> string"
  start_response :: "thrown option"
  crawler_response :: "nat \<Rightarrow> thrown + string option"
  metrics_response :: "thrown + metrics option"
  clock :: "nat \<Rightarrow> int"

text \<open>
  \<open>core.getInput\<close> of the library @actions/core: the variable's value or the empty
  string; a required input that is empty throws; the value is returned trimmed.
\<close>

definition getInput :: "(string \<rightharpoonup> string) \<Rightarrow> string \<Rightarrow> bool \<Rightarrow> thrown + string" where
  "getInput env name required =
     (let val = (case env name of Some v \<Rightarrow> v | None \<Rightarrow> '''')
      in if required \<and> val = ''''
         then Inl (JsError (''Input required and not supplied: '' @ name))
         else Inr (trim val))"

text \<open>The same without options: it cannot throw.\<close>

definition getInput_opt :: "(string \<rightharpoonup> string) \<Rightarrow> string \<Rightarrow> string" where
  "getInput_opt env name = trim (case env name of Some v \<Rightarrow> v | None \<Rightarrow> '''')"

text \<open>
  Modelled from the spec: the action's metadata file (action.yml) is not among the
  sources. The spec's input table gives the defaults it declares.
\<close>

definition declared_defaults :: "(string \<times> string) list" where
  "declared_defaults = [(''wait-for-completion'', ''true''), (''timeout-minutes'', ''60'')]"

text \<open>
  The runner puts a declared default into the environment for an input that the workflow
  step does not give.
\<close>

definition runner_inputs :: "(string \<times> string) list \<Rightarrow> (string \<rightharpoonup> string) \<Rightarrow> (string \<rightharpoonup> string)" where
  "runner_inputs defaults given =
     (\<lambda>k. case given k of Some v \<Rightarrow> Some v | None \<Rightarrow> map_of defaults k)"

section \<open>The action\<close>

text \<open>Lines 8 and 9 of \<open>run\<close>: the two optional inputs.\<close>

definition waitForCompletion_of :: "(string \<rightharpoonup> string) \<Rightarrow> bool" where
  "waitForCompletion_of env = (getInput_opt env ''wait-for-completion'' = ''true'')"

definition timeoutMinutes_of :: "(string \<rightharpoonup> string) \<Rightarrow> int option" where
  "timeoutMinutes_of env =
     parseInt (let v = getInput_opt env ''timeout-minutes'' in if v = '''' then ''60'' else v)"

text \<open>
  The inner \<open>try\<close>/\<open>catch\<close> around the metrics request: a rejection is swallowed, with a
  warning and the three defaults.
\<close>

definition metric_text :: "int option \<Rightarrow> string" where
  "metric_text v = (case v of Some i \<Rightarrow> show_int i | None \<Rightarrow> ''0'')"

definition fetch_metrics :: "world \<Rightarrow> string \<Rightarrow> host \<Rightarrow> host" where
  "fetch_metrics w crawlerName h =
     (let h1 = emit (GetCrawlerMetrics [crawlerName]) h
      in case metrics_response w of
           Inr m \<Rightarrow>
             setOutput ''tables-deleted'' (metric_text (Option.bind m TablesDeleted))
               (setOutput ''tables-updated'' (metric_text (Option.bind m TablesUpdated))
                 (setOutput ''tables-created'' (metric_text (Option.bind m TablesCreated)) h1))
         | Inl e \<Rightarrow>
             setOutput ''tables-deleted'' ''0''
               (setOutput ''tables-updated'' ''0''
                 (setOutput ''tables-created'' ''0''
                   (emit (Warning ''Could not retrieve crawler metrics'') h1))))"

text \<open>
  How a block of the program ends: normally, by a thrown value, or not yet (the polling
  loop is still running when the fuel, a bound on the number of iterations looked at,
  is used up).
\<close>

datatype completion = Normal | Throw thrown | Pending

definition state_text :: "string option \<Rightarrow> string" where
  "state_text s = (case s of Some v \<Rightarrow> v | None \<Rightarrow> ''undefined'')"

text \<open>
  The loop \<open>while (true)\<close>, from its \<open>k\<close>-th iteration on. The \<open>k\<close>-th iteration makes
  the \<open>k\<close>-th status request and, unless it leaves the loop before, the reading
  \<open>k + 1\<close> of the clock (reading 0 is \<open>startTime\<close>).
\<close>

fun poll :: "nat \<Rightarrow> world \<Rightarrow> string \<Rightarrow> int option \<Rightarrow> int option \<Rightarrow> int \<Rightarrow> nat \<Rightarrow> host
    \<Rightarrow> completion \<times> host" where
  "poll 0 w crawlerName timeoutMinutes timeoutMs startTime k h = (Pending, h)"
| "poll (Suc fuel) w crawlerName timeoutMinutes timeoutMs startTime k h =
     (case crawler_response w k of
        Inl e \<Rightarrow> (Throw e, emit (GetCrawler crawlerName) h)
      | Inr state \<Rightarrow>
          (let h1 = emit (Info (''Crawler state: '' @ state_text state))
                      (emit (GetCrawler crawlerName) h)
           in if state = Some ''READY'' then
                (Normal,
                 emit (Info ''Crawler completed successfully'')
                   (fetch_metrics w crawlerName (setOutput ''state'' ''READY'' h1)))
              else if js_gt (clock w (Suc k) - startTime) timeoutMs then
                (Throw (JsError (''Crawler did not complete within ''
                   @ (case timeoutMinutes of Some m \<Rightarrow> show_int m | None \<Rightarrow> ''NaN'')
                   @ '' minutes'')), h1)
              else poll fuel w crawlerName timeoutMinutes timeoutMs startTime (Suc k)
                     (emit (Sleep 10000) h1)))"

text \<open>
  The body of the outer \<open>try\<close>. Constructing the client and the calls into
  @actions/core other than the required \<open>getInput\<close> are taken not to throw.
\<close>

definition run_try :: "nat \<Rightarrow> world \<Rightarrow> completion \<times> host" where
  "run_try fuel w =
     (case getInput (inputs w) ''crawler-name'' True of
        Inl e \<Rightarrow> (Throw e, host0)
      | Inr crawlerName \<Rightarrow>
          (let waitForCompletion = waitForCompletion_of (inputs w);
               timeoutMinutes = timeoutMinutes_of (inputs w);
               h1 = emit (StartCrawler crawlerName)
                      (emit (Info (''Starting crawler: '' @ crawlerName)) host0)
           in case start_response w of
                Some e \<Rightarrow> (Throw e, h1)
              | None \<Rightarrow>
                  (let h2 = setOutput ''success'' ''true'' h1
                   in if waitForCompletion then
                        poll fuel w crawlerName timeoutMinutes
                          (js_times (js_times timeoutMinutes 60) 1000) (clock w 0) 0
                          (emit (Info ''Waiting for crawler to complete...'') h2)
                      else
                        (Normal,
                         setOutput ''state'' ''RUNNING''
                           (emit (Info ''Not waiting for crawler completion (wait-for-completion is false)'') h2)))))"

text \<open>
  \<open>run\<close> with its outer \<open>catch\<close>. The first component tells whether \<open>run\<close> has
  returned; the second is the host as \<open>run\<close> left it, or as it is after \<open>fuel\<close>
  iterations of a loop that is still polling.
\<close>

definition failure_message :: "thrown \<Rightarrow> string" where
  "failure_message e = (case e of JsError m \<Rightarrow> m | NonError v \<Rightarrow> ''Unknown error occurred'')"

definition run :: "nat \<Rightarrow> world \<Rightarrow> bool \<times> host" where
  "run fuel w =
     (case run_try fuel w of
        (Normal, h) \<Rightarrow> (True, h)
      | (Throw e, h) \<Rightarrow> (True, setOutput ''success'' ''false'' (setFailed (failure_message e) h))
      | (Pending, h) \<Rightarrow> (False, h))"

text \<open>Counting the remote requests of a trace.\<close>

definition start_calls :: "host \<Rightarrow> nat" where
  "start_calls h = length (filter (\<lambda>e. case e of StartCrawler n \<Rightarrow> True | _ \<Rightarrow> False) (trace h))"

definition status_calls :: "host \<Rightarrow> nat" where
  "status_calls h = length (filter (\<lambda>e. case e of GetCrawler n \<Rightarrow> True | _ \<Rightarrow> False) (trace h))"

definition metrics_calls :: "host \<Rightarrow> nat" where
  "metrics_calls h = length (filter (\<lambda>e. case e of GetCrawlerMetrics ns \<Rightarrow> True | _ \<Rightarrow> False) (trace h))"

section \<open>Auxiliary notions for the proofs\<close>

text \<open>
  The milliseconds bound computed at the head of the waiting branch,
  \<open>timeoutMinutes * 60 * 1000\<close>.
\<close>

definition timeoutMs_of :: "(string \<rightharpoonup> string) \<Rightarrow> int option" where
  "timeoutMs_of env = js_times (js_times (timeoutMinutes_of env) 60) 1000"

text \<open>
  The \<open>k\<close>-th iteration goes round the loop: the status request resolves, its state
  is not \<open>READY\<close>, and the deadline test is false.
\<close>

definition continues :: "world \<Rightarrow> int \<Rightarrow> int option \<Rightarrow> nat \<Rightarrow> bool" where
  "continues w startTime timeoutMs k =
     (case crawler_response w k of
        Inl e \<Rightarrow> False
      | Inr state \<Rightarrow> state \<noteq> Some ''READY'' \<and> \<not> js_gt (clock w (Suc k) - startTime) timeoutMs)"

text \<open>The host after \<open>n\<close> such iterations, the first of them being iteration \<open>k\<close>.\<close>

fun idle_rounds :: "world \<Rightarrow> string \<Rightarrow> nat \<Rightarrow> nat \<Rightarrow> host \<Rightarrow> host" where
  "idle_rounds w crawlerName 0 k h = h"
| "idle_rounds w crawlerName (Suc n) k h =
     idle_rounds w crawlerName n (Suc k)
       (emit (Sleep 10000)
         (emit (Info (''Crawler state: ''
             @ state_text (case crawler_response w k of Inr s \<Rightarrow> s | Inl e \<Rightarrow> None)))
           (emit (GetCrawler crawlerName) h)))"

text \<open>The host when the loop is entered.\<close>

definition started :: "string \<Rightarrow> host" where
  "started crawlerName =
     emit (Info ''Waiting for crawler to complete...'')
       (setOutput ''success'' ''true''
         (emit (StartCrawler crawlerName)
           (emit (Info (''Starting crawler: '' @ crawlerName)) host0)))"

section \<open>Where the model is exact\<close>

text \<open>
  The model of the input strings and of the numbers is that of the code on a part of
  its inputs only; theorems that depend on how an input string is trimmed or parsed, or
  on the value of a number, carry these conditions as hypotheses.

  An input value is ASCII: then the white space that \<open>trim\<close> and \<open>parseInt\<close> skip is
  the six characters of \<open>is_space\<close>, and one \<open>char\<close> is one character of the
  JavaScript string.
\<close>

definition ascii :: "string \<Rightarrow> bool" where
  "ascii s = list_all (\<lambda>c. of_char c < (128::nat)) s"

definition ascii_input :: "(string \<rightharpoonup> string) \<Rightarrow> string \<Rightarrow> bool" where
  "ascii_input env name = (case env name of None \<Rightarrow> True | Some v \<Rightarrow> ascii v)"

definition ascii_inputs :: "(string \<rightharpoonup> string) \<Rightarrow> bool" where
  "ascii_inputs env =
     (ascii_input env ''crawler-name'' \<and> ascii_input env ''wait-for-completion''
      \<and> ascii_input env ''timeout-minutes'')"

text \<open>
  An integer is safe: its magnitude is below \<open>2^53\<close>, so a double holds it exactly,
  arithmetic whose exact result is safe does not round, and \<open>toString\<close> prints its
  decimal digits.
\<close>

definition safe_integer :: "int \<Rightarrow> bool" where
  "safe_integer i = (- (2 ^ 53) < i \<and> i < 2 ^ 53)"

text \<open>
  A reading of \<open>Date.now()\<close> is a time value not before the epoch: an integer between
  0 and the largest time value of the language. The difference of two of them is safe.
\<close>

definition time_value :: "int \<Rightarrow> bool" where
  "time_value t = (0 \<le> t \<and> t \<le> 8640000000000000)"

section \<open>Example worlds\<close>

text \<open>A step that asks not to wait.\<close>

definition world_nowait :: world where
  "world_nowait =
     \<lparr>inputs = [''crawler-name'' \<mapsto> ''sales'', ''wait-for-completion'' \<mapsto> ''false''],
      start_response = None,
      crawler_response = (\<lambda>k. Inr (Some ''READY'')),
      metrics_response = Inr None,
      clock = (\<lambda>k. 0)\<rparr>"

text \<open>A step without the required input.\<close>

definition world_noname :: world where
  "world_noname =
     \<lparr>inputs = [''wait-for-completion'' \<mapsto> ''true''],
      start_response = None,
      crawler_response = (\<lambda>k. Inr (Some ''READY'')),
      metrics_response = Inr None,
      clock = (\<lambda>k. 0)\<rparr>"

text \<open>The crawler is idle again at the first status request.\<close>

definition world_ready_first :: world where
  "world_ready_first =
     \<lparr>inputs = [''crawler-name'' \<mapsto> ''sales'', ''wait-for-completion'' \<mapsto> ''true'',
                ''timeout-minutes'' \<mapsto> ''1''],
      start_response = None,
      crawler_response = (\<lambda>k. Inr (Some ''READY'')),
      metrics_response =
        Inr (Some \<lparr>TablesCreated = Some 3, TablesUpdated = Some 0, TablesDeleted = None\<rparr>),
      clock = (\<lambda>k. 1000 + 250 * int k)\<rparr>"

text \<open>READY at the third status request; the metrics request is rejected.\<close>

definition world_metrics_rejected :: world where
  "world_metrics_rejected =
     \<lparr>inputs = [''crawler-name'' \<mapsto> ''sales'', ''wait-for-completion'' \<mapsto> ''true'',
                ''timeout-minutes'' \<mapsto> ''1''],
      start_response = None,
      crawler_response =
        (\<lambda>k. if k = 0 then Inr (Some ''RUNNING'') else if k = 1 then Inr (Some ''STOPPING'')
             else Inr (Some ''READY'')),
      metrics_response = Inl (JsError ''AccessDeniedException''),
      clock = (\<lambda>k. 1000 + 10250 * int k)\<rparr>"

text \<open>A crawler that stays RUNNING, with a one minute bound and a status request every 10.25 seconds.\<close>

definition world_never_ready :: world where
  "world_never_ready =
     \<lparr>inputs = [''crawler-name'' \<mapsto> ''sales'', ''wait-for-completion'' \<mapsto> ''true'',
                ''timeout-minutes'' \<mapsto> ''1''],
      start_response = None,
      crawler_response = (\<lambda>k. Inr (Some ''RUNNING'')),
      metrics_response = Inr None,
      clock = (\<lambda>k. 1000 + 10250 * int k)\<rparr>"

text \<open>The start request is rejected with a value that is not an Error.\<close>

definition world_start_nonerror :: world where
  "world_start_nonerror =
     \<lparr>inputs = [''crawler-name'' \<mapsto> ''sales''],
      start_response = Some (NonError ''socket hang up''),
      crawler_response = (\<lambda>k. Inr (Some ''READY'')),
      metrics_response = Inr None,
      clock = (\<lambda>k. 0)\<rparr>"

text \<open>The second status request is rejected.\<close>

definition world_status_rejected :: world where
  "world_status_rejected =
     \<lparr>inputs = [''crawler-name'' \<mapsto> ''sales'', ''wait-for-completion'' \<mapsto> ''true''],
      start_response = None,
      crawler_response =
        (\<lambda>k. if k = 0 then Inr (Some ''RUNNING'') else Inl (JsError ''ThrottlingException'')),
      metrics_response = Inr None,
      clock = (\<lambda>k. 10000 * int k)\<rparr>"

text \<open>A bound that does not parse, a crawler that stays RUNNING, and a day between two readings of the clock.\<close>

definition world_nan :: world where
  "world_nan =
     \<lparr>inputs = [''crawler-name'' \<mapsto> ''sales'', ''wait-for-completion'' \<mapsto> ''true'',
                ''timeout-minutes'' \<mapsto> ''soon''],
      start_response = None,
      crawler_response = (\<lambda>k. Inr (Some ''RUNNING'')),
      metrics_response = Inr None,
      clock = (\<lambda>k. 86400000 * int k)\<rparr>"

text \<open>The same bound, and READY at the second status request.\<close>

definition world_nan_ready :: world where
  "world_nan_ready =
     \<lparr>inputs = [''crawler-name'' \<mapsto> ''sales'', ''wait-for-completion'' \<mapsto> ''true'',
                ''timeout-minutes'' \<mapsto> ''soon''],
      start_response = None,
      crawler_response = (\<lambda>k. if k = 0 then Inr (Some ''RUNNING'') else Inr (Some ''READY'')),
      metrics_response = Inr None,
      clock = (\<lambda>k. 86400000 * int k)\<rparr>"

section \<open>Basic facts about the host\<close>

lemma outputs_emit [simp]: "outputs (emit e h) = outputs h"
  and failed_emit [simp]: "failed (emit e h) = failed h"
  and trace_emit [simp]: "trace (emit e h) = trace h @ [e]"
  by (simp_all add: emit_def)

lemma outputs_setOutput [simp]: "outputs (setOutput k v h) = (outputs h)(k \<mapsto> v)"
  and failed_setOutput [simp]: "failed (setOutput k v h) = failed h"
  and trace_setOutput [simp]: "trace (setOutput k v h) = trace h"
  by (simp_all add: setOutput_def)

lemma outputs_setFailed [simp]: "outputs (setFailed m h) = outputs h"
  and failed_setFailed [simp]: "failed (setFailed m h) = Some m"
  and trace_setFailed [simp]: "trace (setFailed m h) = trace h"
  by (simp_all add: setFailed_def)

lemma host0_fields [simp]: "outputs host0 = Map.empty" "failed host0 = None" "trace host0 = []"
  by (simp_all add: host0_def)

lemma calls_host0 [simp]: "start_calls host0 = 0" "status_calls host0 = 0" "metrics_calls host0 = 0"
  by (simp_all add: start_calls_def status_calls_def metrics_calls_def)

lemma calls_setOutput [simp]:
  "start_calls (setOutput k v h) = start_calls h"
  "status_calls (setOutput k v h) = status_calls h"
  "metrics_calls (setOutput k v h) = metrics_calls h"
  by (simp_all add: start_calls_def status_calls_def metrics_calls_def)

lemma calls_setFailed [simp]:
  "start_calls (setFailed m h) = start_calls h"
  "status_calls (setFailed m h) = status_calls h"
  "metrics_calls (setFailed m h) = metrics_calls h"
  by (simp_all add: start_calls_def status_calls_def metrics_calls_def)

lemma start_calls_emit [simp]:
  "start_calls (emit e h) = (case e of StartCrawler n \<Rightarrow> Suc (start_calls h) | _ \<Rightarrow> start_calls h)"
  by (simp add: start_calls_def split: event.splits)

lemma status_calls_emit [simp]:
  "status_calls (emit e h) = (case e of GetCrawler n \<Rightarrow> Suc (status_calls h) | _ \<Rightarrow> status_calls h)"
  by (simp add: status_calls_def split: event.splits)

lemma metrics_calls_emit [simp]:
  "metrics_calls (emit e h) = (case e of GetCrawlerMetrics ns \<Rightarrow> Suc (metrics_calls h) | _ \<Rightarrow> metrics_calls h)"
  by (simp add: metrics_calls_def split: event.splits)

section \<open>The polling loop\<close>

lemma outputs_idle_rounds [simp]: "outputs (idle_rounds w crawlerName n k h) = outputs h"
  by (induction n arbitrary: k h) simp_all

lemma failed_idle_rounds [simp]: "failed (idle_rounds w crawlerName n k h) = failed h"
  by (induction n arbitrary: k h) simp_all

lemma start_calls_idle_rounds [simp]:
  "start_calls (idle_rounds w crawlerName n k h) = start_calls h"
  by (induction n arbitrary: k h) simp_all

lemma metrics_calls_idle_rounds [simp]:
  "metrics_calls (idle_rounds w crawlerName n k h) = metrics_calls h"
  by (induction n arbitrary: k h) simp_all

lemma status_calls_idle_rounds [simp]:
  "status_calls (idle_rounds w crawlerName n k h) = status_calls h + n"
  by (induction n arbitrary: k h) simp_all

lemma poll_skip:
  "\<forall>j<n. continues w startTime timeoutMs (k + j) \<Longrightarrow>
   poll (n + fuel) w crawlerName timeoutMinutes timeoutMs startTime k h =
   poll fuel w crawlerName timeoutMinutes timeoutMs startTime (k + n)
     (idle_rounds w crawlerName n k h)"
proof (induction n arbitrary: k h)
  case 0
  show ?case by simp
next
  case (Suc n)
  from Suc.prems have here: "continues w startTime timeoutMs k"
    by (metis add.right_neutral zero_less_Suc)
  from Suc.prems have later: "\<forall>j<n. continues w startTime timeoutMs (Suc k + j)"
    by (metis Suc_less_eq add_Suc_shift)
  from here obtain state where st: "crawler_response w k = Inr state"
    "state \<noteq> Some ''READY''" "\<not> js_gt (clock w (Suc k) - startTime) timeoutMs"
    by (auto simp: continues_def split: sum.splits)
  show ?case
    using st Suc.IH [OF later] by (simp add: Let_def)
qed

lemma poll_stop:
  "\<not> continues w startTime timeoutMs k \<Longrightarrow>
   poll (Suc fuel) w crawlerName timeoutMinutes timeoutMs startTime k h =
   poll (Suc 0) w crawlerName timeoutMinutes timeoutMs startTime k h"
  by (auto simp: continues_def Let_def split: sum.splits)

lemma poll_pending:
  assumes "\<forall>j<fuel. continues w startTime timeoutMs (k + j)"
  shows "poll fuel w crawlerName timeoutMinutes timeoutMs startTime k h =
         (Pending, idle_rounds w crawlerName fuel k h)"
proof -
  have "poll (fuel + 0) w crawlerName timeoutMinutes timeoutMs startTime k h =
        poll 0 w crawlerName timeoutMinutes timeoutMs startTime (k + fuel)
          (idle_rounds w crawlerName fuel k h)"
    by (rule poll_skip [OF assms])
  then show ?thesis by simp
qed

lemma poll_exit:
  assumes before: "\<forall>j<n. continues w startTime timeoutMs (k + j)"
    and stop: "\<not> continues w startTime timeoutMs (k + n)"
    and fuel: "n < fuel"
  shows "poll fuel w crawlerName timeoutMinutes timeoutMs startTime k h =
         poll (Suc 0) w crawlerName timeoutMinutes timeoutMs startTime (k + n)
           (idle_rounds w crawlerName n k h)"
proof -
  define m where "m = fuel - Suc n"
  from fuel have m: "fuel = n + Suc m"
    by (simp add: m_def)
  have "poll (n + Suc m) w crawlerName timeoutMinutes timeoutMs startTime k h =
        poll (Suc m) w crawlerName timeoutMinutes timeoutMs startTime (k + n)
          (idle_rounds w crawlerName n k h)"
    by (rule poll_skip [OF before])
  also have "\<dots> = poll (Suc 0) w crawlerName timeoutMinutes timeoutMs startTime (k + n)
          (idle_rounds w crawlerName n k h)"
    by (rule poll_stop [OF stop])
  finally show ?thesis
    by (simp only: m)
qed

text \<open>The first iteration that does not go round, when there is one.\<close>

lemma first_stop:
  assumes "\<not> continues w startTime timeoutMs (k + j0)"
  obtains n where "n \<le> j0" "\<forall>j<n. continues w startTime timeoutMs (k + j)"
    "\<not> continues w startTime timeoutMs (k + n)"
proof -
  define n where "n = (LEAST j. \<not> continues w startTime timeoutMs (k + j))"
  have stop: "\<not> continues w startTime timeoutMs (k + n)"
    unfolding n_def using assms by (rule LeastI)
  have le: "n \<le> j0"
    unfolding n_def using assms by (rule Least_le)
  have before: "\<forall>j<n. continues w startTime timeoutMs (k + j)"
  proof (intro allI impI)
    fix j assume "j < n"
    then have "j < (LEAST j. \<not> continues w startTime timeoutMs (k + j))"
      by (simp add: n_def)
    from not_less_Least [OF this] show "continues w startTime timeoutMs (k + j)"
      by simp
  qed
  from le before stop show thesis by (rule that)
qed

lemma poll_cases:
  obtains (exit) n where "n < fuel" "\<forall>j<n. continues w startTime timeoutMs (k + j)"
      "\<not> continues w startTime timeoutMs (k + n)"
      "poll fuel w crawlerName timeoutMinutes timeoutMs startTime k h =
       poll (Suc 0) w crawlerName timeoutMinutes timeoutMs startTime (k + n)
         (idle_rounds w crawlerName n k h)"
  | (pending) "\<forall>j<fuel. continues w startTime timeoutMs (k + j)"
      "poll fuel w crawlerName timeoutMinutes timeoutMs startTime k h =
       (Pending, idle_rounds w crawlerName fuel k h)"
proof (cases "\<forall>j<fuel. continues w startTime timeoutMs (k + j)")
  case True
  then show thesis
    using poll_pending [OF True] pending by blast
next
  case False
  then obtain j0 where j0: "j0 < fuel" "\<not> continues w startTime timeoutMs (k + j0)"
    by blast
  from j0(2) obtain n where n: "n \<le> j0" "\<forall>j<n. continues w startTime timeoutMs (k + j)"
    "\<not> continues w startTime timeoutMs (k + n)"
    by (rule first_stop)
  from n(1) j0(1) have lt: "n < fuel" by simp
  show thesis
    using lt n(2) n(3) poll_exit [OF n(2) n(3) lt] by (rule exit)
qed

text \<open>The three ways out of the loop, at an iteration that does not go round.\<close>

lemma poll_rejected:
  "crawler_response w k = Inl e \<Longrightarrow>
   poll (Suc 0) w crawlerName timeoutMinutes timeoutMs startTime k h =
   (Throw e, emit (GetCrawler crawlerName) h)"
  by simp

lemma poll_ready:
  "crawler_response w k = Inr (Some ''READY'') \<Longrightarrow>
   poll (Suc 0) w crawlerName timeoutMinutes timeoutMs startTime k h =
   (Normal, emit (Info ''Crawler completed successfully'')
      (fetch_metrics w crawlerName (setOutput ''state'' ''READY''
        (emit (Info ''Crawler state: READY'') (emit (GetCrawler crawlerName) h)))))"
  by (simp add: state_text_def)

lemma poll_timed_out:
  "crawler_response w k = Inr state \<Longrightarrow> state \<noteq> Some ''READY'' \<Longrightarrow>
   js_gt (clock w (Suc k) - startTime) timeoutMs \<Longrightarrow>
   poll (Suc 0) w crawlerName timeoutMinutes timeoutMs startTime k h =
   (Throw (JsError (''Crawler did not complete within ''
       @ (case timeoutMinutes of Some m \<Rightarrow> show_int m | None \<Rightarrow> ''NaN'') @ '' minutes'')),
    emit (Info (''Crawler state: '' @ state_text state)) (emit (GetCrawler crawlerName) h))"
  by simp

lemma stop_cases:
  assumes "\<not> continues w startTime timeoutMs k"
  obtains (rejected) e where "crawler_response w k = Inl e"
  | (ready) "crawler_response w k = Inr (Some ''READY'')"
  | (timed_out) state where "crawler_response w k = Inr state" "state \<noteq> Some ''READY''"
      "js_gt (clock w (Suc k) - startTime) timeoutMs"
  using assms by (auto simp: continues_def split: sum.splits)

text \<open>How the loop can end, and what the host then looks like.\<close>

lemma poll_Pending:
  assumes "poll fuel w crawlerName timeoutMinutes timeoutMs startTime k h = (Pending, h')"
  shows "h' = idle_rounds w crawlerName fuel k h
     \<and> (\<forall>j<fuel. continues w startTime timeoutMs (k + j))"
proof (cases rule: poll_cases [of fuel w startTime timeoutMs k crawlerName timeoutMinutes h])
  case (exit n)
  from exit(3) show ?thesis
  proof (cases rule: stop_cases)
    case (rejected e)
    with exit(4) assms show ?thesis by simp
  next
    case ready
    with exit(4) assms show ?thesis by simp
  next
    case (timed_out state)
    with exit(4) assms show ?thesis by simp
  qed
next
  case pending
  with assms show ?thesis by simp
qed

lemma poll_Normal:
  assumes "poll fuel w crawlerName timeoutMinutes timeoutMs startTime k h = (Normal, h')"
  shows "\<exists>n<fuel. (\<forall>j<n. continues w startTime timeoutMs (k + j))
     \<and> crawler_response w (k + n) = Inr (Some ''READY'')
     \<and> h' = emit (Info ''Crawler completed successfully'')
          (fetch_metrics w crawlerName (setOutput ''state'' ''READY''
            (emit (Info ''Crawler state: READY'')
              (emit (GetCrawler crawlerName) (idle_rounds w crawlerName n k h)))))"
proof (cases rule: poll_cases [of fuel w startTime timeoutMs k crawlerName timeoutMinutes h])
  case (exit n)
  from exit(3) show ?thesis
  proof (cases rule: stop_cases)
    case (rejected e)
    with exit(4) assms show ?thesis by simp
  next
    case ready
    from exit(4) assms have "h' = emit (Info ''Crawler completed successfully'')
          (fetch_metrics w crawlerName (setOutput ''state'' ''READY''
            (emit (Info ''Crawler state: READY'')
              (emit (GetCrawler crawlerName) (idle_rounds w crawlerName n k h)))))"
      by (simp only: poll_ready [OF ready] prod.inject)
    with exit(1,2) ready show ?thesis by blast
  next
    case (timed_out state)
    with exit(4) assms show ?thesis by simp
  qed
next
  case pending
  with assms show ?thesis by simp
qed

lemma poll_Throw:
  assumes "poll fuel w crawlerName timeoutMinutes timeoutMs startTime k h = (Throw e, h')"
  shows "\<exists>n<fuel. (\<forall>j<n. continues w startTime timeoutMs (k + j))
     \<and> outputs h' = outputs h \<and> failed h' = failed h
     \<and> start_calls h' = start_calls h \<and> metrics_calls h' = metrics_calls h
     \<and> status_calls h' = status_calls h + Suc n
     \<and> (crawler_response w (k + n) = Inl e
         \<or> (\<exists>state. crawler_response w (k + n) = Inr state \<and> state \<noteq> Some ''READY''
              \<and> js_gt (clock w (Suc (k + n)) - startTime) timeoutMs
              \<and> e = JsError (''Crawler did not complete within ''
                    @ (case timeoutMinutes of Some m \<Rightarrow> show_int m | None \<Rightarrow> ''NaN'')
                    @ '' minutes'')))"
proof (cases rule: poll_cases [of fuel w startTime timeoutMs k crawlerName timeoutMinutes h])
  case (exit n)
  from exit(3) show ?thesis
  proof (cases rule: stop_cases)
    case (rejected e')
    from exit(4) assms have "e' = e" "h' = emit (GetCrawler crawlerName) (idle_rounds w crawlerName n k h)"
      by (simp_all only: poll_rejected [OF rejected] prod.inject completion.inject)
    with exit(1,2) rejected show ?thesis
      by (intro exI [of _ n]) simp
  next
    case ready
    with exit(4) assms show ?thesis by simp
  next
    case (timed_out state)
    from exit(4) assms have "e = JsError (''Crawler did not complete within ''
                    @ (case timeoutMinutes of Some m \<Rightarrow> show_int m | None \<Rightarrow> ''NaN'')
                    @ '' minutes'')"
      "h' = emit (Info (''Crawler state: '' @ state_text state))
              (emit (GetCrawler crawlerName) (idle_rounds w crawlerName n k h))"
      by (simp_all only: poll_timed_out [OF timed_out] prod.inject completion.inject)
    with exit(1,2) timed_out show ?thesis
      by (intro exI [of _ n]) simp
  qed
next
  case pending
  with assms show ?thesis by simp
qed

lemma continues_not_ready:
  "continues w startTime timeoutMs k \<Longrightarrow> crawler_response w k \<noteq> Inr (Some ''READY'')"
  by (auto simp: continues_def)

section \<open>The metrics step and the body of run\<close>

lemma failed_fetch_metrics [simp]: "failed (fetch_metrics w crawlerName h) = failed h"
  by (simp add: fetch_metrics_def Let_def split: sum.splits)

lemma calls_fetch_metrics [simp]:
  "start_calls (fetch_metrics w crawlerName h) = start_calls h"
  "status_calls (fetch_metrics w crawlerName h) = status_calls h"
  "metrics_calls (fetch_metrics w crawlerName h) = Suc (metrics_calls h)"
  by (simp_all add: fetch_metrics_def Let_def split: sum.splits)

lemma outputs_fetch_metrics_other:
  "key \<noteq> ''tables-created'' \<Longrightarrow> key \<noteq> ''tables-updated'' \<Longrightarrow> key \<noteq> ''tables-deleted'' \<Longrightarrow>
   outputs (fetch_metrics w crawlerName h) key = outputs h key"
  by (simp add: fetch_metrics_def Let_def split: sum.splits)

lemma outputs_fetch_metrics_rejected:
  "metrics_response w = Inl e \<Longrightarrow>
   outputs (fetch_metrics w crawlerName h) =
   (outputs h)(''tables-created'' \<mapsto> ''0'', ''tables-updated'' \<mapsto> ''0'', ''tables-deleted'' \<mapsto> ''0'')"
  by (simp add: fetch_metrics_def Let_def)

lemma run_try_waiting:
  assumes "getInput (inputs w) ''crawler-name'' True = Inr crawlerName"
    and "waitForCompletion_of (inputs w)"
    and "start_response w = None"
  shows "run_try fuel w =
         poll fuel w crawlerName (timeoutMinutes_of (inputs w)) (timeoutMs_of (inputs w))
           (clock w 0) 0 (started crawlerName)"
  using assms by (simp add: run_try_def timeoutMs_of_def started_def Let_def)

lemma started_fields [simp]:
  "outputs (started crawlerName) = [''success'' \<mapsto> ''true'']"
  "failed (started crawlerName) = None"
  "start_calls (started crawlerName) = 1"
  "status_calls (started crawlerName) = 0"
  "metrics_calls (started crawlerName) = 0"
  by (simp_all add: started_def)

lemma getInput_optional: "getInput env name False = Inr (getInput_opt env name)"
  by (simp add: getInput_def getInput_opt_def)

lemma getInput_required:
  "getInput env name True =
     (if env name = None \<or> env name = Some ''''
      then Inl (JsError (''Input required and not supplied: '' @ name))
      else Inr (trim (the (env name))))"
  by (auto simp: getInput_def)

lemma run_try_cases:
  obtains (config) "inputs w ''crawler-name'' = None \<or> inputs w ''crawler-name'' = Some ''''"
      "run_try fuel w =
       (Throw (JsError ''Input required and not supplied: crawler-name''), host0)"
  | (start_rejected) crawlerName e where
      "getInput (inputs w) ''crawler-name'' True = Inr crawlerName"
      "start_response w = Some e"
      "run_try fuel w = (Throw e, emit (StartCrawler crawlerName)
         (emit (Info (''Starting crawler: '' @ crawlerName)) host0))"
  | (no_wait) crawlerName where
      "getInput (inputs w) ''crawler-name'' True = Inr crawlerName"
      "start_response w = None" "\<not> waitForCompletion_of (inputs w)"
      "run_try fuel w = (Normal, setOutput ''state'' ''RUNNING''
         (emit (Info ''Not waiting for crawler completion (wait-for-completion is false)'')
           (setOutput ''success'' ''true'' (emit (StartCrawler crawlerName)
             (emit (Info (''Starting crawler: '' @ crawlerName)) host0)))))"
  | (waiting) crawlerName where
      "getInput (inputs w) ''crawler-name'' True = Inr crawlerName"
      "start_response w = None" "waitForCompletion_of (inputs w)"
      "run_try fuel w =
         poll fuel w crawlerName (timeoutMinutes_of (inputs w)) (timeoutMs_of (inputs w))
           (clock w 0) 0 (started crawlerName)"
proof (cases "inputs w ''crawler-name'' = None \<or> inputs w ''crawler-name'' = Some ''''")
  case True
  then have "run_try fuel w =
       (Throw (JsError ''Input required and not supplied: crawler-name''), host0)"
    by (simp add: run_try_def getInput_required)
  with True show thesis by (rule config)
next
  case False
  define crawlerName where "crawlerName = trim (the (inputs w ''crawler-name''))"
  from False have name: "getInput (inputs w) ''crawler-name'' True = Inr crawlerName"
    by (simp add: getInput_required crawlerName_def)
  show thesis
  proof (cases "start_response w")
    case (Some e)
    with name show thesis
      by (intro start_rejected [of crawlerName e]) (simp_all add: run_try_def Let_def)
  next
    case None
    show thesis
    proof (cases "waitForCompletion_of (inputs w)")
      case True
      from name None True run_try_waiting [OF name True None] show thesis
        by (rule waiting)
    next
      case False
      with name None show thesis
        by (intro no_wait [of crawlerName]) (simp_all add: run_try_def Let_def)
    qed
  qed
qed

lemma run_try_Throw:
  assumes "run_try fuel w = (Throw e, h0)"
  shows "failed h0 = None \<and> metrics_calls h0 = 0
     \<and> (outputs h0 = Map.empty \<or> outputs h0 = [''success'' \<mapsto> ''true''])"
proof (cases rule: run_try_cases [of w fuel])
  case config
  with assms show ?thesis by auto
next
  case (start_rejected crawlerName e')
  with assms show ?thesis by auto
next
  case (no_wait crawlerName)
  with assms show ?thesis by simp
next
  case (waiting crawlerName)
  with assms have "poll fuel w crawlerName (timeoutMinutes_of (inputs w))
      (timeoutMs_of (inputs w)) (clock w 0) 0 (started crawlerName) = (Throw e, h0)"
    by simp
  from poll_Throw [OF this] show ?thesis by auto
qed

section \<open>Rendering and parsing integers\<close>

lemma digit_char_props:
  assumes "d < 10"
  shows "digit_val (digit_char d) = Some d" "\<not> is_space (digit_char d)"
    "digit_char d \<noteq> CHR ''-''" "digit_char d \<noteq> CHR ''+''"
proof -
  from assms have "d \<in> {0, 1, 2, 3, 4, 5, 6, 7, 8, 9}"
    by auto
  then show "digit_val (digit_char d) = Some d" "\<not> is_space (digit_char d)"
    "digit_char d \<noteq> CHR ''-''" "digit_char d \<noteq> CHR ''+''"
    by (auto simp: digit_char_def digit_val_def is_space_def)
qed

lemma show_nat_not_empty: "show_nat n \<noteq> []"
  by (subst show_nat.simps) simp

lemma show_nat_chars:
  "c \<in> set (show_nat n) \<Longrightarrow> is_digit c \<and> \<not> is_space c \<and> c \<noteq> CHR ''-'' \<and> c \<noteq> CHR ''+''"
proof (induction n rule: show_nat.induct)
  case (1 n)
  show ?case
  proof (cases "n < 10")
    case True
    with "1.prems" have "c = digit_char n"
      by (subst (asm) show_nat.simps) simp
    with True show ?thesis
      by (simp add: digit_char_props is_digit_def)
  next
    case False
    with "1.prems" have "c \<in> set (show_nat (n div 10)) \<or> c = digit_char (n mod 10)"
      by (subst (asm) show_nat.simps) auto
    then show ?thesis
    proof
      assume "c \<in> set (show_nat (n div 10))"
      with False "1.IH" show ?thesis by simp
    next
      assume "c = digit_char (n mod 10)"
      then show ?thesis
        by (simp add: digit_char_props is_digit_def)
    qed
  qed
qed

lemma decimal_value_snoc:
  "decimal_value (ds @ [c]) =
   10 * decimal_value ds + (case digit_val c of Some d \<Rightarrow> d | None \<Rightarrow> 0)"
  by (simp add: decimal_value_def)

lemma decimal_value_show_nat: "decimal_value (show_nat n) = n"
proof (induction n rule: show_nat.induct)
  case (1 n)
  show ?case
  proof (cases "n < 10")
    case True
    then show ?thesis
      by (subst show_nat.simps) (simp add: decimal_value_def digit_char_props)
  next
    case False
    with "1.IH" have "decimal_value (show_nat (n div 10)) = n div 10"
      by simp
    with False show ?thesis
      by (subst show_nat.simps) (simp add: decimal_value_snoc digit_char_props)
  qed
qed

lemma dropWhile_none: "\<forall>c\<in>set xs. \<not> P c \<Longrightarrow> dropWhile P xs = xs"
  by (cases xs) simp_all

lemma takeWhile_all: "\<forall>c\<in>set xs. P c \<Longrightarrow> takeWhile P xs = xs"
  by (induction xs) simp_all

lemma parseInt_show_nat: "parseInt (show_nat n) = Some (int n)"
proof -
  obtain c cs where cs: "show_nat n = c # cs"
    using show_nat_not_empty [of n] by (cases "show_nat n") auto
  have c: "\<not> is_space c" "c \<noteq> CHR ''-''" "c \<noteq> CHR ''+''"
    using show_nat_chars [of c n] by (simp_all add: cs)
  have digits: "takeWhile is_digit (c # cs) = c # cs"
    by (rule takeWhile_all) (use show_nat_chars [of _ n] in \<open>simp add: cs\<close>)
  have "parseInt (c # cs) = Some (int (decimal_value (c # cs)))"
    unfolding parseInt_def Let_def using c digits by simp
  then show ?thesis
    by (simp add: cs [symmetric] decimal_value_show_nat)
qed

lemma parseInt_minus_show_nat: "parseInt (CHR ''-'' # show_nat n) = Some (- int n)"
proof -
  have digits: "takeWhile is_digit (show_nat n) = show_nat n"
    by (rule takeWhile_all) (use show_nat_chars [of _ n] in simp)
  have "\<not> is_space CHR ''-''"
    by (simp add: is_space_def)
  then show ?thesis
    unfolding parseInt_def Let_def
    by (simp add: digits show_nat_not_empty decimal_value_show_nat)
qed

lemma parseInt_show_int: "parseInt (show_int i) = Some i"
  by (simp add: show_int_def parseInt_show_nat parseInt_minus_show_nat)

lemma show_int_no_space: "c \<in> set (show_int i) \<Longrightarrow> \<not> is_space c"
  using show_nat_chars by (auto simp: show_int_def is_space_def split: if_splits)

lemma trim_show_int: "trim (show_int i) = show_int i"
proof -
  have "dropWhile is_space (show_int i) = show_int i"
    by (rule dropWhile_none) (simp add: show_int_no_space)
  moreover have "dropWhile is_space (rev (show_int i)) = rev (show_int i)"
    by (rule dropWhile_none) (simp add: show_int_no_space)
  ultimately show ?thesis
    by (simp add: trim_def)
qed

lemma show_int_not_empty: "show_int i \<noteq> []"
  by (simp add: show_int_def show_nat_not_empty)

lemma trim_empty [simp]: "trim [] = []"
  by (simp add: trim_def)

text \<open>A value that starts with digits: the digits are read in base 10.\<close>

lemma digit_not_space: "is_digit c \<Longrightarrow> \<not> is_space c \<and> c \<noteq> CHR ''-'' \<and> c \<noteq> CHR ''+''"
  by (auto simp: is_digit_def digit_val_def is_space_def split: if_splits)

lemma decimal_value_positional:
  "decimal_value ds =
   (\<Sum>i<length ds. (case digit_val (ds ! i) of Some d \<Rightarrow> d | None \<Rightarrow> 0)
      * 10 ^ (length ds - Suc i))"
proof (induction ds rule: rev_induct)
  case Nil
  show ?case by (simp add: decimal_value_def)
next
  case (snoc c ds)
  let ?d = "\<lambda>x. case digit_val x of Some d \<Rightarrow> d | None \<Rightarrow> (0::nat)"
  have "(\<Sum>i<length ds. ?d ((ds @ [c]) ! i) * 10 ^ (length (ds @ [c]) - Suc i)) =
        (\<Sum>i<length ds. 10 * (?d (ds ! i) * 10 ^ (length ds - Suc i)))"
  proof (rule sum.cong [OF refl])
    fix i assume "i \<in> {..<length ds}"
    then have i: "i < length ds" by simp
    then have "length (ds @ [c]) - Suc i = Suc (length ds - Suc i)"
      by simp
    with i show "?d ((ds @ [c]) ! i) * 10 ^ (length (ds @ [c]) - Suc i) =
        10 * (?d (ds ! i) * 10 ^ (length ds - Suc i))"
      by (simp add: nth_append)
  qed
  also have "\<dots> = 10 * decimal_value ds"
    by (simp add: snoc.IH sum_distrib_left)
  finally show ?case
    by (simp add: decimal_value_snoc)
qed

lemma trim_digits_prefix:
  assumes ne: "ds \<noteq> []" and digits: "list_all is_digit ds"
  shows "\<exists>r. trim (ds @ rest) = ds @ r \<and> (r = [] \<or> (rest \<noteq> [] \<and> hd r = hd rest))"
proof -
  have nosp: "\<And>c. c \<in> set ds \<Longrightarrow> \<not> is_space c"
    using digits digit_not_space by (auto simp: list_all_iff)
  from ne nosp have front: "dropWhile is_space (ds @ rest) = ds @ rest"
    by (cases ds) simp_all
  from ne nosp have rear: "dropWhile is_space (rev ds) = rev ds"
    by (cases ds rule: rev_cases) simp_all
  show ?thesis
  proof (cases "\<forall>c\<in>set rest. is_space c")
    case True
    then have "dropWhile is_space (rev rest @ rev ds) = rev ds"
      by (simp add: dropWhile_append rear)
    then have "trim (ds @ rest) = ds @ []"
      by (simp add: trim_def front)
    then show ?thesis by blast
  next
    case False
    then obtain c where "c \<in> set (rev rest)" "\<not> is_space c"
      by auto
    then have "dropWhile is_space (rev rest @ rev ds) = dropWhile is_space (rev rest) @ rev ds"
      by (rule dropWhile_append1)
    then have t: "trim (ds @ rest) = ds @ rev (dropWhile is_space (rev rest))"
      by (simp add: trim_def front)
    define r where "r = rev (dropWhile is_space (rev rest))"
    have "r @ rev (takeWhile is_space (rev rest)) =
        rev (takeWhile is_space (rev rest) @ dropWhile is_space (rev rest))"
      by (simp only: rev_append r_def)
    also have "\<dots> = rest"
      by (simp only: takeWhile_dropWhile_id rev_rev_ident)
    finally have parts: "rest = r @ rev (takeWhile is_space (rev rest))"
      by (rule sym)
    from False have rne: "r \<noteq> []"
      by (auto simp: r_def dropWhile_eq_Nil_conv)
    with parts have "hd rest = hd r"
      by (metis hd_append2)
    with rne parts t show ?thesis
      unfolding r_def [symmetric] by auto
  qed
qed

lemma parseInt_digits_prefix:
  assumes ne: "ds \<noteq> []" and digits: "list_all is_digit ds"
    and stop: "r = [] \<or> \<not> is_digit (hd r)"
  shows "parseInt (ds @ r) = Some (int (decimal_value ds))"
proof -
  obtain c cs where cs: "ds = c # cs"
    using ne by (cases ds) auto
  from digits have c: "\<not> is_space c" "c \<noteq> CHR ''-''" "c \<noteq> CHR ''+''"
    using digit_not_space [of c] by (simp_all add: cs)
  from stop have "takeWhile is_digit r = []"
    by (cases r) auto
  with digits have z: "takeWhile is_digit (ds @ r) = ds"
    by (simp add: takeWhile_append2 list_all_iff)
  show ?thesis
    unfolding parseInt_def Let_def using c z ne by (simp add: cs)
qed

lemma timeoutMinutes_digits_prefix:
  assumes "env ''timeout-minutes'' = Some (ds @ rest)"
    and ne: "ds \<noteq> []" and digits: "list_all is_digit ds"
    and stop: "rest = [] \<or> \<not> is_digit (hd rest)"
  shows "timeoutMinutes_of env = Some (int (decimal_value ds))"
proof -
  from trim_digits_prefix [OF ne digits, of rest] obtain r where
    r: "trim (ds @ rest) = ds @ r" "r = [] \<or> (rest \<noteq> [] \<and> hd r = hd rest)"
    by blast
  from r(2) stop have "r = [] \<or> \<not> is_digit (hd r)"
    by auto
  from parseInt_digits_prefix [OF ne digits this] assms(1) r(1) ne show ?thesis
    by (simp add: timeoutMinutes_of_def getInput_opt_def)
qed

text \<open>The definitions that evaluate the inputs of a concrete world.\<close>

lemmas input_defs = getInput_def getInput_opt_def waitForCompletion_of_def
  timeoutMinutes_of_def timeoutMs_of_def trim_def is_space_def parseInt_def is_digit_def
  digit_val_def decimal_value_def js_times_def

section \<open>Not waiting\<close>

lemma world_nowait_valid:
  "getInput (inputs world_nowait) ''crawler-name'' True = Inr ''sales''"
  "\<not> waitForCompletion_of (inputs world_nowait)"
  "start_response world_nowait = None"
  by (simp_all add: world_nowait_def getInput_def waitForCompletion_of_def getInput_opt_def
      trim_def is_space_def)

text \<open>
  C1, as the code has it. With a crawler name supplied, \<open>wait-for-completion\<close> not
  equal to \<open>true\<close> and a start request that resolves, \<open>run\<close> returns right after the
  start request: the trace holds the two log lines and the one StartCrawler request and
  nothing else (no status request, no metrics request), the outputs are exactly
  \<open>success = true\<close> and \<open>state = RUNNING\<close>, and the step is not failed. The three
  metric outputs are not written on this path.
\<close>

theorem no_wait_returns_after_start:
  assumes "getInput (inputs w) ''crawler-name'' True = Inr crawlerName"
    and "\<not> waitForCompletion_of (inputs w)"
    and "start_response w = None"
  shows "\<exists>h. run fuel w = (True, h)
     \<and> trace h = [Info (''Starting crawler: '' @ crawlerName), StartCrawler crawlerName,
          Info ''Not waiting for crawler completion (wait-for-completion is false)'']
     \<and> outputs h = [''success'' \<mapsto> ''true'', ''state'' \<mapsto> ''RUNNING'']
     \<and> failed h = None
     \<and> start_calls h = 1 \<and> status_calls h = 0 \<and> metrics_calls h = 0"
  using assms by (simp add: run_def run_try_def)

theorem no_wait_returns_after_start_witness:
  "getInput (inputs world_nowait) ''crawler-name'' True = Inr ''sales''
   \<and> \<not> waitForCompletion_of (inputs world_nowait)
   \<and> start_response world_nowait = None
   \<and> (\<exists>h. run 3 world_nowait = (True, h)
     \<and> trace h = [Info ''Starting crawler: sales'', StartCrawler ''sales'',
          Info ''Not waiting for crawler completion (wait-for-completion is false)'']
     \<and> outputs h = [''success'' \<mapsto> ''true'', ''state'' \<mapsto> ''RUNNING'']
     \<and> failed h = None
     \<and> start_calls h = 1 \<and> status_calls h = 0 \<and> metrics_calls h = 0)"
  using no_wait_returns_after_start [OF world_nowait_valid, of 3] world_nowait_valid
  by simp

text \<open>
  C1 as stated fails: in the world \<open>world_nowait\<close> the configuration is valid, waiting
  is off and the start request resolves; \<open>run\<close> returns with \<open>state = RUNNING\<close>, and
  none of the three metric outputs is set (the claim has them set to zero).
\<close>

theorem no_wait_metrics_counterexample:
  "getInput (inputs world_nowait) ''crawler-name'' True = Inr ''sales''
   \<and> \<not> waitForCompletion_of (inputs world_nowait)
   \<and> start_response world_nowait = None
   \<and> fst (run 5 world_nowait) = True
   \<and> outputs (snd (run 5 world_nowait)) ''state'' = Some ''RUNNING''
   \<and> outputs (snd (run 5 world_nowait)) ''tables-created'' = None
   \<and> outputs (snd (run 5 world_nowait)) ''tables-updated'' = None
   \<and> outputs (snd (run 5 world_nowait)) ''tables-deleted'' = None"
  by (simp add: world_nowait_valid run_def run_try_def)

section \<open>The required input\<close>

text \<open>
  C4. When the input \<open>crawler-name\<close> is absent or empty, \<open>run\<close> returns failed with the
  message of the configuration error, the only output is \<open>success = false\<close>, and the
  trace is empty: no start, status or metrics request was made.
\<close>

theorem missing_crawler_name_fails_first:
  assumes "inputs w ''crawler-name'' = None \<or> inputs w ''crawler-name'' = Some ''''"
  shows "run fuel w = (True, \<lparr>outputs = [''success'' \<mapsto> ''false''],
           failed = Some ''Input required and not supplied: crawler-name'', trace = []\<rparr>)"
  using assms
  by (auto simp add: run_def run_try_def getInput_def failure_message_def host0_def
      setOutput_def setFailed_def)

theorem missing_crawler_name_fails_first_witness:
  "(inputs world_noname ''crawler-name'' = None \<or> inputs world_noname ''crawler-name'' = Some '''')
   \<and> run 7 world_noname = (True, \<lparr>outputs = [''success'' \<mapsto> ''false''],
           failed = Some ''Input required and not supplied: crawler-name'', trace = []\<rparr>)
   \<and> start_calls (snd (run 7 world_noname)) = 0
   \<and> status_calls (snd (run 7 world_noname)) = 0
   \<and> metrics_calls (snd (run 7 world_noname)) = 0"
proof -
  have missing: "inputs world_noname ''crawler-name'' = None
      \<or> inputs world_noname ''crawler-name'' = Some ''''"
    by (simp add: world_noname_def)
  show ?thesis
    using missing missing_crawler_name_fails_first [OF missing, of 7]
    by (simp add: start_calls_def status_calls_def metrics_calls_def)
qed

section \<open>Ready at the first poll\<close>

lemma world_ready_first_valid:
  "getInput (inputs world_ready_first) ''crawler-name'' True = Inr ''sales''"
  "waitForCompletion_of (inputs world_ready_first)"
  "start_response world_ready_first = None"
  "crawler_response world_ready_first 0 = Inr (Some ''READY'')"
  by (simp_all add: world_ready_first_def input_defs)

text \<open>
  C5. With a crawler name supplied, \<open>wait-for-completion\<close> equal to \<open>true\<close>, a start
  request that resolves and a first status request that answers \<open>READY\<close>, \<open>run\<close>
  returns as soon as one iteration of the loop is looked at, having made exactly one
  status request and exactly one metrics request (and one start request); the step is
  not failed, \<open>success\<close> is \<open>true\<close> and \<open>state\<close> is \<open>READY\<close>. This holds whatever the
  metrics request answers.
\<close>

theorem ready_on_first_poll:
  assumes "getInput (inputs w) ''crawler-name'' True = Inr crawlerName"
    and "waitForCompletion_of (inputs w)"
    and "start_response w = None"
    and "crawler_response w 0 = Inr (Some ''READY'')"
  shows "\<exists>h. run (Suc fuel) w = (True, h)
     \<and> status_calls h = 1 \<and> metrics_calls h = 1 \<and> start_calls h = 1
     \<and> failed h = None
     \<and> outputs h ''success'' = Some ''true'' \<and> outputs h ''state'' = Some ''READY''"
  using assms
  by (simp add: run_def run_try_waiting [OF assms(1-3)] state_text_def
      outputs_fetch_metrics_other)

theorem ready_on_first_poll_witness:
  "getInput (inputs world_ready_first) ''crawler-name'' True = Inr ''sales''
   \<and> waitForCompletion_of (inputs world_ready_first)
   \<and> start_response world_ready_first = None
   \<and> crawler_response world_ready_first 0 = Inr (Some ''READY'')
   \<and> (\<exists>h. run (Suc 4) world_ready_first = (True, h)
     \<and> status_calls h = 1 \<and> metrics_calls h = 1 \<and> start_calls h = 1
     \<and> failed h = None
     \<and> outputs h ''success'' = Some ''true'' \<and> outputs h ''state'' = Some ''READY'')"
  using ready_on_first_poll [OF world_ready_first_valid, of 4] world_ready_first_valid
  by simp

section \<open>A rejected metrics request\<close>

lemma world_metrics_rejected_valid:
  "getInput (inputs world_metrics_rejected) ''crawler-name'' True = Inr ''sales''"
  "waitForCompletion_of (inputs world_metrics_rejected)"
  "start_response world_metrics_rejected = None"
  "\<forall>j<2. continues world_metrics_rejected (clock world_metrics_rejected 0)
      (timeoutMs_of (inputs world_metrics_rejected)) j"
  "crawler_response world_metrics_rejected 2 = Inr (Some ''READY'')"
  "metrics_response world_metrics_rejected = Inl (JsError ''AccessDeniedException'')"
  "(2::nat) < 3"
  by (simp_all add: world_metrics_rejected_def input_defs continues_def js_gt_def
      numeral_2_eq_2 All_less_Suc)

text \<open>
  C3. Let the loop reach \<open>READY\<close> at its iteration \<open>n\<close> (the \<open>n\<close> iterations before it
  go round: their status requests resolve with another state and their deadline tests
  are false), and let the metrics request be rejected with any thrown value \<open>e\<close>. Then
  \<open>run\<close> returns, given fuel for more than \<open>n\<close> iterations, without failing the step:
  \<open>success\<close> is \<open>true\<close>, the three metric outputs are \<open>0\<close>, and \<open>state\<close> is \<open>READY\<close>.
\<close>

theorem metrics_failure_swallowed:
  assumes "getInput (inputs w) ''crawler-name'' True = Inr crawlerName"
    and "waitForCompletion_of (inputs w)"
    and "start_response w = None"
    and before: "\<forall>j<n. continues w (clock w 0) (timeoutMs_of (inputs w)) j"
    and ready: "crawler_response w n = Inr (Some ''READY'')"
    and rejected: "metrics_response w = Inl e"
    and fuel: "n < fuel"
  shows "\<exists>h. run fuel w = (True, h)
     \<and> failed h = None
     \<and> outputs h ''success'' = Some ''true''
     \<and> outputs h ''tables-created'' = Some ''0''
     \<and> outputs h ''tables-updated'' = Some ''0''
     \<and> outputs h ''tables-deleted'' = Some ''0''
     \<and> outputs h ''state'' = Some ''READY''
     \<and> metrics_calls h = 1"
proof -
  have stop: "\<not> continues w (clock w 0) (timeoutMs_of (inputs w)) (0 + n)"
    using ready by (simp add: continues_def)
  have before': "\<forall>j<n. continues w (clock w 0) (timeoutMs_of (inputs w)) (0 + j)"
    using before by simp
  have "run_try fuel w =
        poll (Suc 0) w crawlerName (timeoutMinutes_of (inputs w)) (timeoutMs_of (inputs w))
          (clock w 0) (0 + n) (idle_rounds w crawlerName n 0 (started crawlerName))"
    unfolding run_try_waiting [OF assms(1-3)] by (rule poll_exit [OF before' stop fuel])
  also have "\<dots> = (Normal, emit (Info ''Crawler completed successfully'')
      (fetch_metrics w crawlerName (setOutput ''state'' ''READY''
        (emit (Info ''Crawler state: READY'')
          (emit (GetCrawler crawlerName)
            (idle_rounds w crawlerName n 0 (started crawlerName)))))))"
    using ready by (simp only: poll_ready add_0)
  finally show ?thesis
    by (simp add: run_def outputs_fetch_metrics_rejected [OF rejected])
qed

theorem metrics_failure_swallowed_witness:
  "getInput (inputs world_metrics_rejected) ''crawler-name'' True = Inr ''sales''
   \<and> waitForCompletion_of (inputs world_metrics_rejected)
   \<and> start_response world_metrics_rejected = None
   \<and> continues world_metrics_rejected (clock world_metrics_rejected 0)
        (timeoutMs_of (inputs world_metrics_rejected)) 0
   \<and> continues world_metrics_rejected (clock world_metrics_rejected 0)
        (timeoutMs_of (inputs world_metrics_rejected)) 1
   \<and> crawler_response world_metrics_rejected 2 = Inr (Some ''READY'')
   \<and> metrics_response world_metrics_rejected = Inl (JsError ''AccessDeniedException'')
   \<and> (\<exists>h. run 3 world_metrics_rejected = (True, h)
     \<and> failed h = None
     \<and> outputs h ''success'' = Some ''true''
     \<and> outputs h ''tables-created'' = Some ''0''
     \<and> outputs h ''tables-updated'' = Some ''0''
     \<and> outputs h ''tables-deleted'' = Some ''0''
     \<and> outputs h ''state'' = Some ''READY''
     \<and> metrics_calls h = 1)"
proof -
  have rounds: "continues world_metrics_rejected (clock world_metrics_rejected 0)
        (timeoutMs_of (inputs world_metrics_rejected)) 0"
    "continues world_metrics_rejected (clock world_metrics_rejected 0)
        (timeoutMs_of (inputs world_metrics_rejected)) 1"
    using world_metrics_rejected_valid(4) by simp_all
  show ?thesis
    using metrics_failure_swallowed [OF world_metrics_rejected_valid] rounds
      world_metrics_rejected_valid(1-3,5,6)
    by simp
qed

section \<open>The deadline\<close>

lemma world_never_ready_valid:
  "getInput (inputs world_never_ready) ''crawler-name'' True = Inr ''sales''"
  "waitForCompletion_of (inputs world_never_ready)"
  "start_response world_never_ready = None"
  "ascii_inputs (inputs world_never_ready)"
  "timeoutMinutes_of (inputs world_never_ready) = Some 1"
  "safe_integer (1 * 60 * 1000)"
  "\<forall>j\<le>Suc 5. time_value (clock world_never_ready j)"
  "\<forall>j\<le>5. \<exists>state. crawler_response world_never_ready j = Inr state \<and> state \<noteq> Some ''READY''"
  "clock world_never_ready (Suc 5) - clock world_never_ready 0 > 1 * 60 * 1000"
  "(5::nat) < 9"
  by (simp_all add: world_never_ready_def input_defs ascii_inputs_def ascii_input_def
      ascii_def safe_integer_def time_value_def)

text \<open>
  C2. Let waiting be on and \<open>timeout-minutes\<close> parse to the integer \<open>m\<close>, where the input
  values are ASCII, \<open>m * 60 * 1000\<close> is a safe integer and the clock readings are time
  values (so that the parse, the product, the differences, the comparisons and the
  rendering of \<open>m\<close> are those of the code). If the status requests up to the \<open>k\<close>-th
  all resolve with a state other than \<open>READY\<close>, and the clock reading of the deadline
  test after the \<open>k\<close>-th of them is more than \<open>m * 60 * 1000\<close> milliseconds past the
  start reading, then \<open>run\<close> returns (given fuel for more than \<open>k\<close> iterations) with
  the step failed, the message being \<open>Crawler did not complete within m minutes\<close> with
  \<open>m\<close> in decimal; \<open>success\<close> is \<open>false\<close>, no metrics request was made, and at most
  \<open>k + 1\<close> status requests were.
\<close>

theorem timeout_fails_without_metrics:
  assumes "getInput (inputs w) ''crawler-name'' True = Inr crawlerName"
    and "waitForCompletion_of (inputs w)"
    and "start_response w = None"
    and ascii: "ascii_inputs (inputs w)"
    and minutes: "timeoutMinutes_of (inputs w) = Some m"
    and exact: "safe_integer (m * 60 * 1000)"
    and readings: "\<forall>j\<le>Suc k. time_value (clock w j)"
    and not_ready: "\<forall>j\<le>k. \<exists>state. crawler_response w j = Inr state \<and> state \<noteq> Some ''READY''"
    and late: "clock w (Suc k) - clock w 0 > m * 60 * 1000"
    and fuel: "k < fuel"
  shows "\<exists>h. run fuel w = (True, h)
     \<and> failed h = Some (''Crawler did not complete within '' @ show_int m @ '' minutes'')
     \<and> outputs h ''success'' = Some ''false''
     \<and> metrics_calls h = 0
     \<and> status_calls h \<le> Suc k"
proof -
  have ms: "timeoutMs_of (inputs w) = Some (m * 60 * 1000)"
    by (simp add: timeoutMs_of_def minutes js_times_def)
  from not_ready obtain state where "crawler_response w k = Inr state" "state \<noteq> Some ''READY''"
    by blast
  with late have "\<not> continues w (clock w 0) (timeoutMs_of (inputs w)) (0 + k)"
    by (simp add: continues_def ms js_gt_def)
  then obtain n where n: "n \<le> k"
    "\<forall>j<n. continues w (clock w 0) (timeoutMs_of (inputs w)) (0 + j)"
    "\<not> continues w (clock w 0) (timeoutMs_of (inputs w)) (0 + n)"
    by (rule first_stop)
  from n(1) fuel have lt: "n < fuel" by simp
  from not_ready n(1) obtain st where st: "crawler_response w n = Inr st" "st \<noteq> Some ''READY''"
    by blast
  with n(3) have gt: "js_gt (clock w (Suc n) - clock w 0) (timeoutMs_of (inputs w))"
    by (simp add: continues_def)
  have "run_try fuel w =
        poll (Suc 0) w crawlerName (timeoutMinutes_of (inputs w)) (timeoutMs_of (inputs w))
          (clock w 0) (0 + n) (idle_rounds w crawlerName n 0 (started crawlerName))"
    unfolding run_try_waiting [OF assms(1-3)] by (rule poll_exit [OF n(2) n(3) lt])
  also have "\<dots> = (Throw (JsError (''Crawler did not complete within '' @ show_int m @ '' minutes'')),
      emit (Info (''Crawler state: '' @ state_text st)) (emit (GetCrawler crawlerName)
        (idle_rounds w crawlerName n 0 (started crawlerName))))"
    using poll_timed_out [OF st gt] by (simp add: minutes)
  finally show ?thesis
    using n(1) by (simp add: run_def failure_message_def)
qed

theorem timeout_fails_without_metrics_witness:
  "getInput (inputs world_never_ready) ''crawler-name'' True = Inr ''sales''
   \<and> waitForCompletion_of (inputs world_never_ready)
   \<and> start_response world_never_ready = None
   \<and> ascii_inputs (inputs world_never_ready)
   \<and> timeoutMinutes_of (inputs world_never_ready) = Some 1
   \<and> safe_integer (1 * 60 * 1000)
   \<and> time_value (clock world_never_ready 0)
   \<and> time_value (clock world_never_ready (Suc 5))
   \<and> crawler_response world_never_ready 0 = Inr (Some ''RUNNING'')
   \<and> crawler_response world_never_ready 5 = Inr (Some ''RUNNING'')
   \<and> clock world_never_ready (Suc 5) - clock world_never_ready 0 = 61500
   \<and> (\<exists>h. run 9 world_never_ready = (True, h)
     \<and> failed h = Some ''Crawler did not complete within 1 minutes''
     \<and> outputs h ''success'' = Some ''false''
     \<and> metrics_calls h = 0
     \<and> status_calls h \<le> Suc 5)"
proof -
  have shown: "show_int 1 = ''1''"
    by (simp add: show_int_def show_nat.simps digit_char_def)
  have readings: "crawler_response world_never_ready 0 = Inr (Some ''RUNNING'')"
    "crawler_response world_never_ready 5 = Inr (Some ''RUNNING'')"
    "clock world_never_ready (Suc 5) - clock world_never_ready 0 = 61500"
    "time_value (clock world_never_ready 0)"
    "time_value (clock world_never_ready (Suc 5))"
    by (simp_all add: world_never_ready_def time_value_def)
  show ?thesis
    using timeout_fails_without_metrics [OF world_never_ready_valid] readings
      world_never_ready_valid(1-6)
    by (simp add: shown)
qed

section \<open>One start request, one terminal observation\<close>

lemma run_world_metrics_rejected:
  "fst (run 3 world_metrics_rejected)"
  "start_calls (snd (run 3 world_metrics_rejected)) = 1"
  "status_calls (snd (run 3 world_metrics_rejected)) = 3"
  by (simp_all add: run_def run_try_def world_metrics_rejected_def input_defs numeral_3_eq_3
      Let_def js_gt_def state_text_def)

text \<open>
  C6, as the code has it. At every point of every run (after any number of loop
  iterations, returned or still polling): the number of start requests made is 1 when
  the crawler name is supplied and 0 when it is absent or empty, never more; at most
  one metrics request was made; and a status request that answered \<open>READY\<close> is the last
  one made: \<open>run\<close> has returned, with one metrics request, \<open>state = READY\<close> and the
  step not failed.
\<close>

theorem start_once_first_ready_wins:
  assumes "run fuel w = (returned, h)"
  shows "start_calls h =
       (if inputs w ''crawler-name'' = None \<or> inputs w ''crawler-name'' = Some '''' then 0 else 1)
     \<and> metrics_calls h \<le> 1
     \<and> (\<forall>k<status_calls h. crawler_response w k = Inr (Some ''READY'') \<longrightarrow>
          returned \<and> Suc k = status_calls h \<and> metrics_calls h = 1 \<and> failed h = None
          \<and> outputs h ''state'' = Some ''READY'')"
proof (cases rule: run_try_cases [of w fuel])
  case config
  with assms show ?thesis by (auto simp: run_def)
next
  case (start_rejected crawlerName e)
  with assms show ?thesis by (auto simp: run_def getInput_required split: if_splits)
next
  case (no_wait crawlerName)
  with assms show ?thesis by (auto simp: run_def getInput_required split: if_splits)
next
  case (waiting crawlerName)
  from waiting(1) have named:
    "\<not> (inputs w ''crawler-name'' = None \<or> inputs w ''crawler-name'' = Some '''')"
    by (simp add: getInput_required split: if_splits)
  obtain c h0 where res: "poll fuel w crawlerName (timeoutMinutes_of (inputs w))
      (timeoutMs_of (inputs w)) (clock w 0) 0 (started crawlerName) = (c, h0)"
    by (cases "poll fuel w crawlerName (timeoutMinutes_of (inputs w))
      (timeoutMs_of (inputs w)) (clock w 0) 0 (started crawlerName)")
  show ?thesis
  proof (cases c)
    case Normal
    from poll_Normal [OF res [unfolded Normal]] obtain n where n:
      "\<forall>j<n. continues w (clock w 0) (timeoutMs_of (inputs w)) (0 + j)"
      "crawler_response w (0 + n) = Inr (Some ''READY'')"
      "h0 = emit (Info ''Crawler completed successfully'')
          (fetch_metrics w crawlerName (setOutput ''state'' ''READY''
            (emit (Info ''Crawler state: READY'')
              (emit (GetCrawler crawlerName)
                (idle_rounds w crawlerName n 0 (started crawlerName))))))"
      by blast
    from assms waiting(4) res Normal have h: "h = h0" "returned"
      by (auto simp: run_def)
    have calls: "start_calls h = 1" "metrics_calls h = 1" "status_calls h = Suc n"
      "failed h = None" "outputs h ''state'' = Some ''READY''"
      by (simp_all add: h n(3) outputs_fetch_metrics_other)
    have "\<forall>k<n. crawler_response w k \<noteq> Inr (Some ''READY'')"
      using n(1) continues_not_ready by fastforce
    with calls h(2) named show ?thesis
      by (auto simp: less_Suc_eq)
  next
    case (Throw e)
    from poll_Throw [OF res [unfolded Throw]] obtain n where n:
      "\<forall>j<n. continues w (clock w 0) (timeoutMs_of (inputs w)) (0 + j)"
      "start_calls h0 = start_calls (started crawlerName)"
      "metrics_calls h0 = metrics_calls (started crawlerName)"
      "status_calls h0 = status_calls (started crawlerName) + Suc n"
      "crawler_response w (0 + n) \<noteq> Inr (Some ''READY'')"
      by auto
    from assms waiting(4) res Throw
    have h: "h = setOutput ''success'' ''false'' (setFailed (failure_message e) h0)"
      by (auto simp: run_def)
    have calls: "start_calls h = 1" "metrics_calls h = 0" "status_calls h = Suc n"
      by (simp_all add: h n(2-4))
    have "\<forall>k<n. crawler_response w k \<noteq> Inr (Some ''READY'')"
      using n(1) continues_not_ready by fastforce
    with calls n(5) named show ?thesis
      by (auto simp: less_Suc_eq)
  next
    case Pending
    from poll_Pending [OF res [unfolded Pending]] have p:
      "h0 = idle_rounds w crawlerName fuel 0 (started crawlerName)"
      "\<forall>j<fuel. continues w (clock w 0) (timeoutMs_of (inputs w)) (0 + j)"
      by simp_all
    from assms waiting(4) res Pending have h: "h = h0"
      by (auto simp: run_def)
    have calls: "start_calls h = 1" "metrics_calls h = 0" "status_calls h = fuel"
      by (simp_all add: h p(1))
    have "\<forall>k<fuel. crawler_response w k \<noteq> Inr (Some ''READY'')"
      using p(2) continues_not_ready by fastforce
    with calls named show ?thesis
      by auto
  qed
qed

theorem start_once_first_ready_wins_witness:
  "start_calls (snd (run 3 world_metrics_rejected)) = 1
   \<and> status_calls (snd (run 3 world_metrics_rejected)) = 3
   \<and> crawler_response world_metrics_rejected 2 = Inr (Some ''READY'')
   \<and> fst (run 3 world_metrics_rejected)
   \<and> metrics_calls (snd (run 3 world_metrics_rejected)) = 1
   \<and> failed (snd (run 3 world_metrics_rejected)) = None
   \<and> outputs (snd (run 3 world_metrics_rejected)) ''state'' = Some ''READY''"
proof -
  have pair: "run 3 world_metrics_rejected =
      (fst (run 3 world_metrics_rejected), snd (run 3 world_metrics_rejected))"
    by simp
  have ready: "crawler_response world_metrics_rejected 2 = Inr (Some ''READY'')"
    by (simp add: world_metrics_rejected_def)
  from start_once_first_ready_wins [OF pair]
  have "\<forall>k<status_calls (snd (run 3 world_metrics_rejected)).
      crawler_response world_metrics_rejected k = Inr (Some ''READY'') \<longrightarrow>
        fst (run 3 world_metrics_rejected)
        \<and> Suc k = status_calls (snd (run 3 world_metrics_rejected))
        \<and> metrics_calls (snd (run 3 world_metrics_rejected)) = 1
        \<and> failed (snd (run 3 world_metrics_rejected)) = None
        \<and> outputs (snd (run 3 world_metrics_rejected)) ''state'' = Some ''READY''"
    by (elim conjE)
  then have "2 < status_calls (snd (run 3 world_metrics_rejected)) \<longrightarrow>
      crawler_response world_metrics_rejected 2 = Inr (Some ''READY'') \<longrightarrow>
        fst (run 3 world_metrics_rejected)
        \<and> Suc 2 = status_calls (snd (run 3 world_metrics_rejected))
        \<and> metrics_calls (snd (run 3 world_metrics_rejected)) = 1
        \<and> failed (snd (run 3 world_metrics_rejected)) = None
        \<and> outputs (snd (run 3 world_metrics_rejected)) ''state'' = Some ''READY''"
    by (rule spec)
  with run_world_metrics_rejected(3) ready
  have "fst (run 3 world_metrics_rejected)
     \<and> metrics_calls (snd (run 3 world_metrics_rejected)) = 1
     \<and> failed (snd (run 3 world_metrics_rejected)) = None
     \<and> outputs (snd (run 3 world_metrics_rejected)) ''state'' = Some ''READY''"
    by simp
  with run_world_metrics_rejected ready show ?thesis
    by simp
qed

text \<open>
  C6 as stated fails: a run without the required input returns having made no start
  request at all, where the claim has exactly one for every invocation.
\<close>

theorem start_count_counterexample:
  "fst (run 7 world_noname) = True \<and> start_calls (snd (run 7 world_noname)) = 0"
  by (simp add: run_def run_try_def world_noname_def getInput_def)

section \<open>The outer catch\<close>

text \<open>Where the body of the outer \<open>try\<close> can throw, and what it throws there.\<close>

lemma run_try_throw_sites:
  assumes "run_try fuel w = (Throw e, h0)"
  shows "((inputs w ''crawler-name'' = None \<or> inputs w ''crawler-name'' = Some '''')
          \<and> e = JsError ''Input required and not supplied: crawler-name'')
     \<or> start_response w = Some e
     \<or> (\<exists>n<fuel. crawler_response w n = Inl e)
     \<or> (\<exists>n<fuel. \<exists>state. crawler_response w n = Inr state \<and> state \<noteq> Some ''READY''
           \<and> js_gt (clock w (Suc n) - clock w 0) (timeoutMs_of (inputs w))
           \<and> e = JsError (''Crawler did not complete within ''
                 @ (case timeoutMinutes_of (inputs w) of Some m \<Rightarrow> show_int m | None \<Rightarrow> ''NaN'')
                 @ '' minutes''))"
proof (cases rule: run_try_cases [of w fuel])
  case config
  with assms show ?thesis by simp
next
  case (start_rejected crawlerName e')
  with assms show ?thesis by simp
next
  case (no_wait crawlerName)
  with assms show ?thesis by simp
next
  case (waiting crawlerName)
  with assms have "poll fuel w crawlerName (timeoutMinutes_of (inputs w))
      (timeoutMs_of (inputs w)) (clock w 0) 0 (started crawlerName) = (Throw e, h0)"
    by simp
  from poll_Throw [OF this] obtain n where n: "n < fuel"
    "crawler_response w (0 + n) = Inl e
     \<or> (\<exists>state. crawler_response w (0 + n) = Inr state \<and> state \<noteq> Some ''READY''
          \<and> js_gt (clock w (Suc (0 + n)) - clock w 0) (timeoutMs_of (inputs w))
          \<and> e = JsError (''Crawler did not complete within ''
                @ (case timeoutMinutes_of (inputs w) of Some m \<Rightarrow> show_int m | None \<Rightarrow> ''NaN'')
                @ '' minutes''))"
    by blast
  from n(2) show ?thesis
  proof
    assume "crawler_response w (0 + n) = Inl e"
    with n(1) show ?thesis by auto
  next
    assume "\<exists>state. crawler_response w (0 + n) = Inr state \<and> state \<noteq> Some ''READY''
          \<and> js_gt (clock w (Suc (0 + n)) - clock w 0) (timeoutMs_of (inputs w))
          \<and> e = JsError (''Crawler did not complete within ''
                @ (case timeoutMinutes_of (inputs w) of Some m \<Rightarrow> show_int m | None \<Rightarrow> ''NaN'')
                @ '' minutes'')"
    with n(1) show ?thesis by (simp only: add_0) blast
  qed
qed

lemma run_try_world_status_rejected:
  "fst (run_try 2 world_status_rejected) = Throw (JsError ''ThrottlingException'')"
  by (simp add: run_try_def world_status_rejected_def input_defs numeral_2_eq_2
      Let_def js_gt_def)

text \<open>
  C7. Whenever the body of the outer \<open>try\<close> ends by throwing a value \<open>e\<close> (the throw
  sites are the required input, a rejected start request, a rejected status request and
  the deadline test, by \<open>run_try_throw_sites\<close>), \<open>run\<close> returns with the step failed,
  the message being that of \<open>e\<close> when \<open>e\<close> is an \<open>Error\<close>, and the outputs are
  \<open>success = false\<close> and nothing else: \<open>state\<close> and the three metric outputs are not
  set.
\<close>

theorem fatal_failure_outputs:
  assumes "fst (run_try fuel w) = Throw e"
  shows "\<exists>h. run fuel w = (True, h)
     \<and> failed h = Some (failure_message e)
     \<and> (\<forall>msg. e = JsError msg \<longrightarrow> failed h = Some msg)
     \<and> outputs h = [''success'' \<mapsto> ''false'']
     \<and> outputs h ''state'' = None
     \<and> outputs h ''tables-created'' = None
     \<and> outputs h ''tables-updated'' = None
     \<and> outputs h ''tables-deleted'' = None"
proof -
  obtain h0 where h0: "run_try fuel w = (Throw e, h0)"
    using assms by (cases "run_try fuel w") simp
  from run_try_Throw [OF h0]
  have "outputs h0 = Map.empty \<or> outputs h0 = [''success'' \<mapsto> ''true'']"
    by simp
  then have "(outputs h0)(''success'' \<mapsto> ''false'') = [''success'' \<mapsto> ''false'']"
    by auto
  then show ?thesis
    by (simp add: run_def h0 failure_message_def)
qed

theorem fatal_failure_outputs_witness:
  "fst (run_try 2 world_status_rejected) = Throw (JsError ''ThrottlingException'')
   \<and> (\<exists>h. run 2 world_status_rejected = (True, h) \<and> failed h = Some ''ThrottlingException''
     \<and> outputs h = [''success'' \<mapsto> ''false'']
     \<and> outputs h ''state'' = None
     \<and> outputs h ''tables-created'' = None
     \<and> outputs h ''tables-updated'' = None
     \<and> outputs h ''tables-deleted'' = None)"
  using fatal_failure_outputs [OF run_try_world_status_rejected] run_try_world_status_rejected
  by auto

lemma run_try_world_start_nonerror:
  "fst (run_try 0 world_start_nonerror) = Throw (NonError ''socket hang up'')"
  by (simp add: run_try_def world_start_nonerror_def input_defs Let_def)

text \<open>
  C9. Whenever the body of the outer \<open>try\<close> ends by throwing a value \<open>v\<close> that is not
  an \<open>Error\<close>, \<open>run\<close> returns with the step failed with the fixed message
  \<open>Unknown error occurred\<close>, whatever \<open>v\<close> is, and \<open>success\<close> is \<open>false\<close>.
\<close>

theorem non_error_failure_message:
  assumes "fst (run_try fuel w) = Throw (NonError v)"
  shows "\<exists>h. run fuel w = (True, h) \<and> failed h = Some ''Unknown error occurred''
     \<and> outputs h ''success'' = Some ''false''"
proof -
  obtain h0 where h0: "run_try fuel w = (Throw (NonError v), h0)"
    using assms by (cases "run_try fuel w") simp
  show ?thesis
    by (simp add: run_def h0 failure_message_def)
qed

theorem non_error_failure_message_witness:
  "fst (run_try 0 world_start_nonerror) = Throw (NonError ''socket hang up'')
   \<and> (\<exists>h. run 0 world_start_nonerror = (True, h) \<and> failed h = Some ''Unknown error occurred''
     \<and> outputs h ''success'' = Some ''false'')"
  using non_error_failure_message [OF run_try_world_start_nonerror] run_try_world_start_nonerror
  by simp

section \<open>A bound that is not a number\<close>

lemma world_nan_facts:
  "ascii_inputs (inputs world_nan)"
  "timeoutMinutes_of (inputs world_nan) = None"
  "getInput (inputs world_nan) ''crawler-name'' True = Inr ''sales''"
  "waitForCompletion_of (inputs world_nan)"
  "start_response world_nan = None"
  "crawler_response world_nan k = Inr (Some ''RUNNING'')"
  "clock world_nan 50 - clock world_nan 0 = 4320000000"
  by (simp_all add: world_nan_def input_defs ascii_inputs_def ascii_input_def ascii_def)

lemma world_nan_ready_facts:
  "ascii_inputs (inputs world_nan_ready)"
  "timeoutMinutes_of (inputs world_nan_ready) = None"
  "fst (run 2 world_nan_ready)"
  "status_calls (snd (run 2 world_nan_ready)) = 2"
  "crawler_response world_nan_ready 1 = Inr (Some ''READY'')"
  by (simp_all add: run_def run_try_def world_nan_ready_def input_defs numeral_2_eq_2
      Let_def js_gt_def state_text_def ascii_inputs_def ascii_input_def ascii_def)

text \<open>
  C10. Let the input values be ASCII and \<open>timeout-minutes\<close> fail to parse (\<open>NaN\<close>).
  Then a run that has made a status request and has returned did so because its last
  status request answered \<open>READY\<close> (the step is not failed) or was rejected (the step
  is failed with the message of the thrown value): the deadline test never ends it. And
  when waiting is on and no status request ever answers \<open>READY\<close> or is rejected,
  \<open>run\<close> has not returned after any number of iterations, whatever the clock shows.
\<close>

theorem nan_timeout_never_fires:
  assumes ascii: "ascii_inputs (inputs w)"
    and nan: "timeoutMinutes_of (inputs w) = None"
  shows "(run fuel w = (True, h) \<and> 0 < status_calls h \<longrightarrow>
            (crawler_response w (status_calls h - 1) = Inr (Some ''READY'') \<and> failed h = None)
          \<or> (\<exists>e. crawler_response w (status_calls h - 1) = Inl e
                \<and> failed h = Some (failure_message e)))
     \<and> ((\<exists>crawlerName. getInput (inputs w) ''crawler-name'' True = Inr crawlerName)
          \<and> waitForCompletion_of (inputs w) \<and> start_response w = None
          \<and> (\<forall>k. \<exists>state. crawler_response w k = Inr state \<and> state \<noteq> Some ''READY'')
        \<longrightarrow> fst (run fuel w) = False)"
proof (intro conjI impI)
  have ms: "timeoutMs_of (inputs w) = None"
    by (simp add: timeoutMs_of_def nan js_times_def)
  {
    assume a: "run fuel w = (True, h) \<and> 0 < status_calls h"
    show "(crawler_response w (status_calls h - 1) = Inr (Some ''READY'') \<and> failed h = None)
          \<or> (\<exists>e. crawler_response w (status_calls h - 1) = Inl e
                \<and> failed h = Some (failure_message e))"
    proof (cases rule: run_try_cases [of w fuel])
      case config
      with a show ?thesis by (auto simp: run_def)
    next
      case (start_rejected crawlerName e)
      with a show ?thesis by (auto simp: run_def)
    next
      case (no_wait crawlerName)
      with a show ?thesis by (auto simp: run_def)
    next
      case (waiting crawlerName)
      obtain c h0 where res: "poll fuel w crawlerName (timeoutMinutes_of (inputs w))
          (timeoutMs_of (inputs w)) (clock w 0) 0 (started crawlerName) = (c, h0)"
        by (cases "poll fuel w crawlerName (timeoutMinutes_of (inputs w))
          (timeoutMs_of (inputs w)) (clock w 0) 0 (started crawlerName)")
      show ?thesis
      proof (cases c)
        case Normal
        from poll_Normal [OF res [unfolded Normal]] obtain n where n:
          "crawler_response w (0 + n) = Inr (Some ''READY'')"
          "h0 = emit (Info ''Crawler completed successfully'')
              (fetch_metrics w crawlerName (setOutput ''state'' ''READY''
                (emit (Info ''Crawler state: READY'')
                  (emit (GetCrawler crawlerName)
                    (idle_rounds w crawlerName n 0 (started crawlerName))))))"
          by blast
        from a waiting(4) res Normal have h: "h = h0"
          by (auto simp: run_def)
        have "status_calls h = Suc n" "failed h = None"
          by (simp_all add: h n(2))
        with n(1) show ?thesis by simp
      next
        case (Throw e)
        from poll_Throw [OF res [unfolded Throw]] obtain n where n:
          "failed h0 = failed (started crawlerName)"
          "status_calls h0 = status_calls (started crawlerName) + Suc n"
          "crawler_response w (0 + n) = Inl e"
          by (auto simp: ms js_gt_def)
        from a waiting(4) res Throw
        have h: "h = setOutput ''success'' ''false'' (setFailed (failure_message e) h0)"
          by (auto simp: run_def)
        have "status_calls h = Suc n" "failed h = Some (failure_message e)"
          by (simp_all add: h n(2))
        with n(3) show ?thesis by simp
      next
        case Pending
        with a waiting(4) res show ?thesis by (simp add: run_def)
      qed
    qed
  }
  {
    assume b: "(\<exists>crawlerName. getInput (inputs w) ''crawler-name'' True = Inr crawlerName)
          \<and> waitForCompletion_of (inputs w) \<and> start_response w = None
          \<and> (\<forall>k. \<exists>state. crawler_response w k = Inr state \<and> state \<noteq> Some ''READY'')"
    then obtain crawlerName where name: "getInput (inputs w) ''crawler-name'' True = Inr crawlerName"
      by blast
    from b have wait: "waitForCompletion_of (inputs w)" and start: "start_response w = None"
      by simp_all
    have "\<forall>j<fuel. continues w (clock w 0) (timeoutMs_of (inputs w)) (0 + j)"
    proof (intro allI impI)
      fix j
      from b obtain state where "crawler_response w j = Inr state" "state \<noteq> Some ''READY''"
        by blast
      then show "continues w (clock w 0) (timeoutMs_of (inputs w)) (0 + j)"
        by (simp add: continues_def ms js_gt_def)
    qed
    from poll_pending [OF this] show "fst (run fuel w) = False"
      by (simp add: run_def run_try_waiting [OF name wait start])
  }
qed

theorem nan_timeout_never_fires_witness:
  "ascii_inputs (inputs world_nan)
   \<and> timeoutMinutes_of (inputs world_nan) = None
   \<and> clock world_nan 50 - clock world_nan 0 = 4320000000
   \<and> fst (run 50 world_nan) = False
   \<and> ascii_inputs (inputs world_nan_ready)
   \<and> timeoutMinutes_of (inputs world_nan_ready) = None
   \<and> run 2 world_nan_ready = (True, snd (run 2 world_nan_ready))
   \<and> status_calls (snd (run 2 world_nan_ready)) = 2
   \<and> crawler_response world_nan_ready 1 = Inr (Some ''READY'')
   \<and> failed (snd (run 2 world_nan_ready)) = None"
proof -
  have never: "\<forall>k. \<exists>state. crawler_response world_nan k = Inr state \<and> state \<noteq> Some ''READY''"
    by (simp add: world_nan_facts(6))
  from nan_timeout_never_fires [OF world_nan_facts(1,2), of 50] never world_nan_facts(3-5)
  have pending: "fst (run 50 world_nan) = False"
    by simp
  have returned: "run 2 world_nan_ready = (True, snd (run 2 world_nan_ready))"
    using world_nan_ready_facts(3) by (cases "run 2 world_nan_ready") simp
  from nan_timeout_never_fires [OF world_nan_ready_facts(1,2), of 2 "snd (run 2 world_nan_ready)"]
    returned world_nan_ready_facts(4,5)
  have "failed (snd (run 2 world_nan_ready)) = None"
    by simp
  with pending returned world_nan_facts world_nan_ready_facts show ?thesis
    by simp
qed

section \<open>The optional inputs\<close>

text \<open>
  C8. \<open>wait-for-completion\<close> is the test that the variable is set and its trimmed value
  equals \<open>true\<close> (for an ASCII value, where \<open>trim\<close> is that of the code). When the
  metadata declares the default \<open>true\<close>, as the spec's table has it, and the runner
  applies it, an input the workflow leaves out makes the test true. \<open>timeout-minutes\<close>
  is read in base 10: a value that starts with decimal digits parses to the number
  these digits denote in base 10, whatever follows them (\<open>decimal_value\<close> is the
  positional value, by \<open>decimal_value_positional\<close>); the decimal rendering of an
  integer \<open>n\<close> parses to \<open>n\<close>; both for safe integers, which a double holds exactly.
  When the variable is absent or empty the value is 60.
\<close>

theorem input_parsing:
  "(ascii_input env ''wait-for-completion'' \<longrightarrow>
      waitForCompletion_of env =
        (\<exists>raw. env ''wait-for-completion'' = Some raw \<and> trim raw = ''true''))
   \<and> (map_of defaults ''wait-for-completion'' = Some ''true''
        \<and> given ''wait-for-completion'' = None \<longrightarrow>
          waitForCompletion_of (runner_inputs defaults given))
   \<and> map_of declared_defaults ''wait-for-completion'' = Some ''true''
   \<and> (env ''timeout-minutes'' = Some (ds @ rest) \<and> ds \<noteq> [] \<and> list_all is_digit ds
        \<and> (rest = [] \<or> \<not> is_digit (hd rest)) \<and> ascii rest
        \<and> safe_integer (int (decimal_value ds)) \<longrightarrow>
          timeoutMinutes_of env = Some (int (decimal_value ds)))
   \<and> (safe_integer n \<and> env ''timeout-minutes'' = Some (show_int n) \<longrightarrow>
          timeoutMinutes_of env = Some n)
   \<and> (env ''timeout-minutes'' = None \<or> env ''timeout-minutes'' = Some '''' \<longrightarrow>
        timeoutMinutes_of env = Some 60)"
proof (intro conjI impI)
  show "waitForCompletion_of env = (\<exists>raw. env ''wait-for-completion'' = Some raw \<and> trim raw = ''true'')"
    by (cases "env ''wait-for-completion''") (simp_all add: waitForCompletion_of_def getInput_opt_def)
  show "waitForCompletion_of (runner_inputs defaults given)"
    if "map_of defaults ''wait-for-completion'' = Some ''true''
        \<and> given ''wait-for-completion'' = None"
    using that
    by (simp add: waitForCompletion_of_def getInput_opt_def runner_inputs_def
        trim_def is_space_def)
  show "map_of declared_defaults ''wait-for-completion'' = Some ''true''"
    by (simp add: declared_defaults_def)
  show "timeoutMinutes_of env = Some (int (decimal_value ds))"
    if "env ''timeout-minutes'' = Some (ds @ rest) \<and> ds \<noteq> [] \<and> list_all is_digit ds
        \<and> (rest = [] \<or> \<not> is_digit (hd rest)) \<and> ascii rest
        \<and> safe_integer (int (decimal_value ds))"
    using that timeoutMinutes_digits_prefix [of env ds rest] by blast
  show "timeoutMinutes_of env = Some n"
    if "safe_integer n \<and> env ''timeout-minutes'' = Some (show_int n)"
    using that
    by (simp add: timeoutMinutes_of_def getInput_opt_def trim_show_int show_int_not_empty
        parseInt_show_int)
  have sixty: "parseInt ''60'' = Some 60"
    by (simp add: parseInt_def is_space_def is_digit_def digit_val_def decimal_value_def)
  show "timeoutMinutes_of env = Some 60"
    if "env ''timeout-minutes'' = None \<or> env ''timeout-minutes'' = Some ''''"
    using that by (auto simp: timeoutMinutes_of_def getInput_opt_def sixty)
qed

theorem input_parsing_witness:
  "waitForCompletion_of (runner_inputs declared_defaults [''crawler-name'' \<mapsto> ''sales''])
   \<and> timeoutMinutes_of [''timeout-minutes'' \<mapsto> ''45''] = Some 45
   \<and> timeoutMinutes_of [''timeout-minutes'' \<mapsto> ''010 min''] = Some 10
   \<and> timeoutMinutes_of [''crawler-name'' \<mapsto> ''sales''] = Some 60
   \<and> waitForCompletion_of [''wait-for-completion'' \<mapsto> '' true'']
   \<and> waitForCompletion_of [''wait-for-completion'' \<mapsto> ''yes''] = False"
proof -
  have shown: "show_int 45 = ''45''"
    by (simp add: show_int_def show_nat.simps digit_char_def)
  have a: "waitForCompletion_of (runner_inputs declared_defaults [''crawler-name'' \<mapsto> ''sales''])"
    "timeoutMinutes_of [''timeout-minutes'' \<mapsto> ''45''] = Some 45"
    using input_parsing [of "[''timeout-minutes'' \<mapsto> ''45'']" declared_defaults
        "[''crawler-name'' \<mapsto> ''sales'']" "[]" "[]" 45]
    by (simp_all add: shown safe_integer_def)
  have digits: "list_all is_digit ''010''" "\<not> is_digit (hd '' min'')" "ascii '' min''"
    "decimal_value ''010'' = 10"
    by (simp_all add: is_digit_def digit_val_def ascii_def decimal_value_def)
  have b: "timeoutMinutes_of [''timeout-minutes'' \<mapsto> ''010 min''] = Some 10"
    using input_parsing [of "[''timeout-minutes'' \<mapsto> ''010 min'']" declared_defaults
        "[''crawler-name'' \<mapsto> ''sales'']" "''010''" "'' min''" 0] digits
    by (simp add: safe_integer_def)
  have c: "timeoutMinutes_of [''crawler-name'' \<mapsto> ''sales''] = Some 60"
    using input_parsing [of "[''crawler-name'' \<mapsto> ''sales'']" declared_defaults
        "[''crawler-name'' \<mapsto> ''sales'']" "[]" "[]" 0]
    by simp
  have d: "waitForCompletion_of [''wait-for-completion'' \<mapsto> '' true'']"
    using input_parsing [of "[''wait-for-completion'' \<mapsto> '' true'']" declared_defaults
        "[''crawler-name'' \<mapsto> ''sales'']" "[]" "[]" 0]
    by (simp add: trim_def is_space_def ascii_input_def ascii_def)
  have e: "waitForCompletion_of [''wait-for-completion'' \<mapsto> ''yes''] = False"
    using input_parsing [of "[''wait-for-completion'' \<mapsto> ''yes'']" declared_defaults
        "[''crawler-name'' \<mapsto> ''sales'']" "[]" "[]" 0]
    by (simp add: trim_def is_space_def ascii_input_def ascii_def)
  from a b c d e show ?thesis by simp
qed

text \<open>
  The default of \<open>wait-for-completion\<close> is the metadata's alone: line 8 has no fallback
  of its own (unlike line 9), so with the variable absent from the environment the
  test is false.
\<close>

lemma wait_absent_in_environment:
  "env ''wait-for-completion'' = None \<Longrightarrow> \<not> waitForCompletion_of env"
  by (simp add: waitForCompletion_of_def getInput_opt_def)

end
